theory Spec2Isabelle
  imports Main "HOL-Library.Log_Nat" "HOL-Library.Sublist"
begin

section \<open>Double-precision values and the C++ conversions applied to them\<close>

text \<open>
  The schema's numeric constraints are read as C++ \<^verbatim>\<open>double\<close>s. A finite double is
  written \<open>Dbl m e\<close> and stands for \<open>m * 2 ^ e\<close>; \<open>wf_double\<close> says that the pair is within
  the binary64 format (53-bit significand, exponent range). Conversions between
  \<^verbatim>\<open>double\<close> and the 64-bit integer types follow the C++ rules: double to integer
  truncates towards zero and is undefined when the truncated value is not representable in
  the destination type; integer to double rounds to the nearest double, ties to even.
\<close>

datatype double = Dbl int int | DInf bool | DNaN

fun wf_double :: "double \<Rightarrow> bool" where
  "wf_double (Dbl m e) = (\<bar>m\<bar> < 2 ^ 53 \<and> - 1074 \<le> e \<and> e \<le> 971)"
| "wf_double (DInf _) = True"
| "wf_double DNaN = True"

datatype error = UndefinedBehaviour

definition INT64_MIN :: int where "INT64_MIN = - (2 ^ 63)"
definition INT64_MAX :: int where "INT64_MAX = 2 ^ 63 - 1"
definition UINT64_MAX :: int where "UINT64_MAX = 2 ^ 64 - 1"

text \<open>Truncation towards zero of a finite double.\<close>

definition dtrunc :: "int \<Rightarrow> int \<Rightarrow> int" where
  "dtrunc m e = (if 0 \<le> e then m * 2 ^ nat e else sgn m * (\<bar>m\<bar> div 2 ^ nat (- e)))"

text \<open>\<^verbatim>\<open>static_cast<int64_t>(d)\<close> and \<^verbatim>\<open>(uint64_t)d\<close>.\<close>

fun double_to_int64 :: "double \<Rightarrow> error + int" where
  "double_to_int64 (Dbl m e) =
     (if INT64_MIN \<le> dtrunc m e \<and> dtrunc m e \<le> INT64_MAX then Inr (dtrunc m e)
      else Inl UndefinedBehaviour)"
| "double_to_int64 (DInf _) = Inl UndefinedBehaviour"
| "double_to_int64 DNaN = Inl UndefinedBehaviour"

fun double_to_uint64 :: "double \<Rightarrow> error + int" where
  "double_to_uint64 (Dbl m e) =
     (if 0 \<le> dtrunc m e \<and> dtrunc m e \<le> UINT64_MAX then Inr (dtrunc m e)
      else Inl UndefinedBehaviour)"
| "double_to_uint64 (DInf _) = Inl UndefinedBehaviour"
| "double_to_uint64 DNaN = Inl UndefinedBehaviour"

text \<open>
  Conversion of a 64-bit integer (signed or unsigned) to \<^verbatim>\<open>double\<close>: exact below
  \<open>2 ^ 53\<close>, otherwise the low bits are rounded away, to nearest, ties to even (and the
  significand renormalised when the rounding carries into the 54th bit).
\<close>

definition int_to_double :: "int \<Rightarrow> double" where
  "int_to_double n =
     (let a = \<bar>n\<bar>; s = nat (bitlen a - 53) in
      if s = 0 then Dbl n 0
      else
        let q = a div 2 ^ s; r = a mod 2 ^ s; h = 2 ^ (s - 1);
            q' = (if h < r \<or> (r = h \<and> odd q) then q + 1 else q)
        in if q' = 2 ^ 53 then Dbl (sgn n * 2 ^ 52) (int s + 1)
           else Dbl (sgn n * q') (int s))"

text \<open>The C++ \<^verbatim>\<open>==\<close> on doubles: by value, and never true of a NaN.\<close>

fun double_eq :: "double \<Rightarrow> double \<Rightarrow> bool" where
  "double_eq (Dbl m1 e1) (Dbl m2 e2) =
     (let k = min e1 e2 in m1 * 2 ^ nat (e1 - k) = m2 * 2 ^ nat (e2 - k))"
| "double_eq (DInf a) (DInf b) = (a = b)"
| "double_eq _ _ = False"

text \<open>A double is a whole number when it has no fractional part.\<close>

fun whole :: "double \<Rightarrow> bool" where
  "whole (Dbl m e) = (0 \<le> e \<or> 2 ^ nat (- e) dvd m)"
| "whole _ = False"

text \<open>The doubles on which \<^verbatim>\<open>(uint64_t)d\<close> is defined.\<close>

fun uint64_convertible :: "double \<Rightarrow> bool" where
  "uint64_convertible (Dbl m e) = (0 \<le> dtrunc m e \<and> dtrunc m e \<le> UINT64_MAX)"
| "uint64_convertible _ = False"

section \<open>UCL objects\<close>

text \<open>
  Modelled from the spec: the dynamically-typed tree of the external UCL library, with the
  primitives of section 6 that the code under study calls. A node carries its own key (the
  name under which its parent object holds it; none for the root and for array elements).
  A pointer to a node is an \<open>option\<close>, \<open>None\<close> being the null pointer.
\<close>

datatype 'a ucl_value =
    UCL_OBJECT "'a list"
  | UCL_ARRAY "'a list"
  | UCL_INT int
  | UCL_FLOAT double
  | UCL_STRING string
  | UCL_BOOLEAN bool
  | UCL_TIME double
  | UCL_NULL

datatype ucl_object_t = Ucl (ucl_key: "string option") (ucl_val: "ucl_object_t ucl_value")

type_synonym ucl_ptr = "ucl_object_t option"

text \<open>Modelled from the spec: \<open>lookup(node,key)\<close> gives the node or null.\<close>

fun ucl_object_lookup :: "ucl_ptr \<Rightarrow> string \<Rightarrow> ucl_ptr" where
  "ucl_object_lookup (Some (Ucl k (UCL_OBJECT kids))) key =
     find (\<lambda>c. ucl_key c = Some key) kids"
| "ucl_object_lookup _ key = None"

text \<open>Modelled from the spec: \<open>type-tag(node)\<close>; the null pointer has the tag of null.\<close>

datatype ucl_type_t =
  T_OBJECT | T_ARRAY | T_INT | T_FLOAT | T_STRING | T_BOOLEAN | T_TIME | T_NULL

fun ucl_object_type :: "ucl_ptr \<Rightarrow> ucl_type_t" where
  "ucl_object_type None = T_NULL"
| "ucl_object_type (Some (Ucl k v)) =
     (case v of
        UCL_OBJECT _ \<Rightarrow> T_OBJECT | UCL_ARRAY _ \<Rightarrow> T_ARRAY | UCL_INT _ \<Rightarrow> T_INT
      | UCL_FLOAT _ \<Rightarrow> T_FLOAT | UCL_STRING _ \<Rightarrow> T_STRING | UCL_BOOLEAN _ \<Rightarrow> T_BOOLEAN
      | UCL_TIME _ \<Rightarrow> T_TIME | UCL_NULL \<Rightarrow> T_NULL)"

text \<open>Modelled from the spec: the scalar conversions; a string only of a string node.\<close>

fun ucl_object_tostring :: "ucl_ptr \<Rightarrow> string option" where
  "ucl_object_tostring (Some (Ucl k (UCL_STRING s))) = Some s"
| "ucl_object_tostring _ = None"

fun ucl_object_todouble :: "ucl_ptr \<Rightarrow> double" where
  "ucl_object_todouble (Some (Ucl k (UCL_INT i))) = int_to_double i"
| "ucl_object_todouble (Some (Ucl k (UCL_FLOAT d))) = d"
| "ucl_object_todouble (Some (Ucl k (UCL_TIME d))) = d"
| "ucl_object_todouble _ = Dbl 0 0"

text \<open>
  Modelled from the spec: the scalar conversion to an integer. As in the UCL library, an
  integer node gives its value, a float or time node its value converted to
  \<^verbatim>\<open>int64_t\<close>, and any other node and the null pointer give 0.
\<close>

fun ucl_object_toint :: "ucl_ptr \<Rightarrow> error + int" where
  "ucl_object_toint (Some (Ucl k (UCL_INT i))) = Inr i"
| "ucl_object_toint (Some (Ucl k (UCL_FLOAT d))) = double_to_int64 d"
| "ucl_object_toint (Some (Ucl k (UCL_TIME d))) = double_to_int64 d"
| "ucl_object_toint _ = Inr 0"

text \<open>
  Modelled from the spec: \<open>iterate(node, both)\<close>. The state of a library iterator is the
  list of nodes it has yet to yield: the children of an array or of an object, in document
  order, each with its own key. The spec does not say what the iteration of a scalar
  yields; as in the UCL library, it is taken to yield the scalar itself, once.
\<close>

fun ucl_object_iterate_new :: "ucl_ptr \<Rightarrow> ucl_object_t list" where
  "ucl_object_iterate_new None = []"
| "ucl_object_iterate_new (Some (Ucl k (UCL_OBJECT kids))) = kids"
| "ucl_object_iterate_new (Some (Ucl k (UCL_ARRAY elems))) = elems"
| "ucl_object_iterate_new (Some scalar) = [scalar]"

definition ucl_object_iterate_safe :: "ucl_object_t list \<Rightarrow> ucl_ptr \<times> ucl_object_t list" where
  "ucl_object_iterate_safe st = (case st of [] \<Rightarrow> (None, []) | x # rest \<Rightarrow> (Some x, rest))"

section \<open>The runtime adaptor library\<close>

text \<open>\<^verbatim>\<open>make_optional\<close>: empty for the null pointer, otherwise the adaptor's value.\<close>

definition make_optional :: "(ucl_ptr \<Rightarrow> 'a) \<Rightarrow> ucl_ptr \<Rightarrow> 'a option" where
  "make_optional Adaptor o' = (if o' = None then None else Some (Adaptor o'))"

definition DoubleAdaptor :: "ucl_ptr \<Rightarrow> double" where
  "DoubleAdaptor obj = ucl_object_todouble obj"

text \<open>\<^verbatim>\<open>StringViewAdaptor\<close>: the string, or the empty view when there is none.\<close>

definition StringViewAdaptor :: "ucl_ptr \<Rightarrow> string" where
  "StringViewAdaptor obj =
     (case ucl_object_tostring obj of Some cstr \<Rightarrow> cstr | None \<Rightarrow> [])"

subsection \<open>Ranges\<close>

text \<open>
  \<^verbatim>\<open>Range<T, Adaptor, IterateProperties>::Iter\<close>. The field \<open>iter\<close> is the library
  iterator (\<open>None\<close> is the null iterator), \<open>obj\<close> the current node. Every range of the
  code under study is built with the default iteration kind, so the kind is not a field.
\<close>

record Iter =
  iter :: "ucl_object_t list option"
  obj :: ucl_ptr
  array :: ucl_ptr

text \<open>Pre-increment.\<close>

definition Iter_incr :: "Iter \<Rightarrow> Iter" where
  "Iter_incr it =
     (case iter it of
        None \<Rightarrow> it\<lparr>obj := None\<rparr>
      | Some st \<Rightarrow> it\<lparr>iter := Some (snd (ucl_object_iterate_safe st)),
                     obj := fst (ucl_object_iterate_safe st)\<rparr>)"

text \<open>The constructors: the default one (the end of every range) and the one of \<open>begin\<close>.\<close>

definition Iter_end :: Iter where
  "Iter_end = \<lparr>iter = None, obj = None, array = None\<rparr>"

definition Iter_begin :: "bool \<Rightarrow> ucl_ptr \<Rightarrow> Iter" where
  "Iter_begin IterateProperties arr =
     (if \<not> IterateProperties \<and> ucl_object_type arr \<noteq> T_ARRAY
      then \<lparr>iter = None, obj = arr, array = None\<rparr>
      else Iter_incr \<lparr>iter = Some (ucl_object_iterate_new arr), obj = None, array = arr\<rparr>)"

definition Iter_neq :: "Iter \<Rightarrow> Iter \<Rightarrow> bool" where
  "Iter_neq a b = (obj a \<noteq> obj b)"

text \<open>
  The range-based \<^verbatim>\<open>for\<close> loop over a range: from \<open>begin\<close>, the current node is taken
  and the iterator incremented until it compares equal to \<open>end\<close>.
\<close>

function for_loop :: "Iter \<Rightarrow> ucl_ptr list" where
  "for_loop it = (if Iter_neq it Iter_end then obj it # for_loop (Iter_incr it) else [])"
  by pat_completeness auto
termination
  by (relation "measure (\<lambda>it. case obj it of None \<Rightarrow> 0
                 | Some _ \<Rightarrow> Suc (case iter it of None \<Rightarrow> 0 | Some st \<Rightarrow> length st))")
     (auto simp: Iter_neq_def Iter_end_def Iter_incr_def ucl_object_iterate_safe_def
           split: option.splits list.splits)

declare for_loop.simps [simp del]

definition Range_elems :: "bool \<Rightarrow> (ucl_ptr \<Rightarrow> 'a) \<Rightarrow> ucl_ptr \<Rightarrow> 'a list" where
  "Range_elems IterateProperties Adaptor arr =
     map Adaptor (for_loop (Iter_begin IterateProperties arr))"

subsection \<open>String-keyed dispatch\<close>

text \<open>
  \<^verbatim>\<open>EnumValueMap::lookup\<close>: a linear scan of the key-value pairs; the value \<open>- 1\<close> cast to
  the enumeration when no key matches. Enumerators are their integer values.
\<close>

fun EnumValueMap_lookup :: "(string \<times> int) list \<Rightarrow> string \<Rightarrow> int" where
  "EnumValueMap_lookup [] key = - 1"
| "EnumValueMap_lookup ((k, val) # kvps) key =
     (if key = k then val else EnumValueMap_lookup kvps key)"

text \<open>
  \<^verbatim>\<open>EnumAdaptor\<close>: the map is applied to a string view built from the C string of the
  node; building a view from the null pointer is undefined.
\<close>

definition EnumAdaptor :: "(string \<times> int) list \<Rightarrow> ucl_ptr \<Rightarrow> error + int" where
  "EnumAdaptor kvps p =
     (case ucl_object_tostring p of
        None \<Rightarrow> Inl UndefinedBehaviour
      | Some s \<Rightarrow> Inr (EnumValueMap_lookup kvps s))"

text \<open>
  \<^verbatim>\<open>NamedTypeAdaptor::visit_impl\<close>: the first named type whose key is the discriminator
  is constructed from the node and handed to the visitor; when none matches the visitor
  is not called.
\<close>

fun visit_impl ::
  "(string \<times> (ucl_ptr \<Rightarrow> 'n)) list \<Rightarrow> ucl_ptr \<Rightarrow> string \<Rightarrow> ('n \<Rightarrow> 's \<Rightarrow> 's) \<Rightarrow> 's \<Rightarrow> 's" where
  "visit_impl [] p key v s = s"
| "visit_impl ((k, ctor) # rest) p key v s =
     (if key = k then v (ctor p) s else visit_impl rest p key v s)"

definition visit ::
  "string \<Rightarrow> (string \<times> (ucl_ptr \<Rightarrow> 'n)) list \<Rightarrow> ucl_ptr \<Rightarrow> ('n \<Rightarrow> 's \<Rightarrow> 's) \<Rightarrow> 's \<Rightarrow> 's" where
  "visit KeyName Types p v s =
     visit_impl Types p (StringViewAdaptor (ucl_object_lookup p KeyName)) v s"

section \<open>The schema model\<close>

datatype Schema =
  Object ucl_ptr | Array ucl_ptr | String ucl_ptr | Integer ucl_ptr | Boolean ucl_ptr
  | Number ucl_ptr

definition TypeAdaptor :: "(string \<times> (ucl_ptr \<Rightarrow> Schema)) list" where
  "TypeAdaptor =
     [(''object'', Object), (''array'', Array), (''string'', String),
      (''integer'', Integer), (''boolean'', Boolean), (''number'', Number)]"

text \<open>\<^verbatim>\<open>SchemaBase::get().visit(v)\<close>.\<close>

definition get_visit :: "ucl_ptr \<Rightarrow> (Schema \<Rightarrow> 's \<Rightarrow> 's) \<Rightarrow> 's \<Rightarrow> 's" where
  "get_visit p v s = visit ''type'' TypeAdaptor p v s"

datatype Type = TypeObject | TypeString | TypeArray | TypeNumber | TypeInteger | TypeBool

fun Type_value :: "Type \<Rightarrow> int" where
  "Type_value TypeObject = 0"
| "Type_value TypeString = 1"
| "Type_value TypeArray = 2"
| "Type_value TypeNumber = 3"
| "Type_value TypeInteger = 4"
| "Type_value TypeBool = 5"

definition TypeEnumAdaptor :: "ucl_ptr \<Rightarrow> error + int" where
  "TypeEnumAdaptor =
     EnumAdaptor
       [(''object'', Type_value TypeObject), (''array'', Type_value TypeArray),
        (''string'', Type_value TypeString), (''integer'', Type_value TypeInteger),
        (''boolean'', Type_value TypeBool), (''number'', Type_value TypeNumber)]"

definition type :: "ucl_ptr \<Rightarrow> error + int" where
  "type p = TypeEnumAdaptor (ucl_object_lookup p ''type'')"

definition description :: "ucl_ptr \<Rightarrow> string option" where
  "description p = make_optional StringViewAdaptor (ucl_object_lookup p ''description'')"

definition items :: "ucl_ptr \<Rightarrow> ucl_ptr" where
  "items p = ucl_object_lookup p ''items''"

text \<open>
  \<^verbatim>\<open>Object::properties\<close> is a range that iterates properties; \<^verbatim>\<open>Object::required\<close>
  an optional range of string views that does not.
\<close>

definition properties :: "ucl_ptr \<Rightarrow> ucl_ptr list" where
  "properties p = Range_elems True (\<lambda>x. x) (ucl_object_lookup p ''properties'')"

definition required :: "ucl_ptr \<Rightarrow> string list option" where
  "required p =
     make_optional (Range_elems False StringViewAdaptor) (ucl_object_lookup p ''required'')"

subsection \<open>Numbers\<close>

definition minimum :: "ucl_ptr \<Rightarrow> double option" where
  "minimum p = make_optional DoubleAdaptor (ucl_object_lookup p ''minimum'')"

definition exclusiveMinimum :: "ucl_ptr \<Rightarrow> double option" where
  "exclusiveMinimum p = make_optional DoubleAdaptor (ucl_object_lookup p ''exclusiveMinimum'')"

definition maximum :: "ucl_ptr \<Rightarrow> double option" where
  "maximum p = make_optional DoubleAdaptor (ucl_object_lookup p ''maximum'')"

definition exclusiveMaximum :: "ucl_ptr \<Rightarrow> double option" where
  "exclusiveMaximum p = make_optional DoubleAdaptor (ucl_object_lookup p ''exclusiveMaximum'')"

definition multipleOf :: "ucl_ptr \<Rightarrow> double option" where
  "multipleOf p = make_optional DoubleAdaptor (ucl_object_lookup p ''multipleOf'')"

section \<open>The schema visitor: numeric resolution\<close>

record SchemaVisitor =
  className :: string
  return_type :: string
  adaptor :: string
  adaptorNamespace :: string
  lifetimeAttribute :: string
  name :: string

text \<open>
  \<^verbatim>\<open>std::optional<double>::value_or(x)\<close> with an \<^verbatim>\<open>int64_t\<close> argument returns a
  \<^verbatim>\<open>double\<close>: the default is converted to \<^verbatim>\<open>double\<close>.
\<close>

definition value_or :: "double option \<Rightarrow> int \<Rightarrow> double" where
  "value_or opt dflt = (case opt of Some d \<Rightarrow> d | None \<Rightarrow> int_to_double dflt)"

text \<open>
  The test of lines 368 to 376 of \<^verbatim>\<open>handleNumber\<close>: the flag as it stands when the
  function decides between the floating and the integral path.
\<close>

definition isIntegral :: "ucl_ptr \<Rightarrow> bool \<Rightarrow> error + bool" where
  "isIntegral num isInteger =
     (if \<not> isInteger then
        (case multipleOf num of
           Some m \<Rightarrow>
             (case double_to_uint64 m of
                Inl err \<Rightarrow> Inl err
              | Inr u \<Rightarrow> Inr (double_eq (int_to_double u) m))
         | None \<Rightarrow> Inr isInteger)
      else Inr isInteger)"

text \<open>
  Lines 383 to 392: the bound interval. Each step converts the running bound to
  \<^verbatim>\<open>double\<close> for \<^verbatim>\<open>value_or\<close> and casts the chosen double back to \<^verbatim>\<open>int64_t\<close>.
\<close>

definition raise_min :: "int \<Rightarrow> double option \<Rightarrow> error + int" where
  "raise_min mn opt =
     (case double_to_int64 (value_or opt mn) of
        Inl err \<Rightarrow> Inl err
      | Inr x \<Rightarrow> Inr (max mn x))"

definition lower_max :: "int \<Rightarrow> double option \<Rightarrow> error + int" where
  "lower_max mx opt =
     (case double_to_int64 (value_or opt mx) of
        Inl err \<Rightarrow> Inl err
      | Inr x \<Rightarrow> Inr (min mx x))"

definition bounds :: "ucl_ptr \<Rightarrow> error + (int \<times> int)" where
  "bounds num =
     (case raise_min INT64_MIN (minimum num) of
        Inl err \<Rightarrow> Inl err
      | Inr mn1 \<Rightarrow>
     (case raise_min mn1 (exclusiveMinimum num) of
        Inl err \<Rightarrow> Inl err
      | Inr mn \<Rightarrow>
     (case lower_max INT64_MAX (maximum num) of
        Inl err \<Rightarrow> Inl err
      | Inr mx1 \<Rightarrow>
     (case lower_max mx1 (exclusiveMaximum num) of
        Inl err \<Rightarrow> Inl err
      | Inr mx \<Rightarrow> Inr (mn, mx)))))"

text \<open>
  Lines 393 to 409: the probes. \<^verbatim>\<open>try_type\<close> compares the \<^verbatim>\<open>int64_t\<close> bounds with the
  limits of the candidate type. The comparison is made in the common type of the two
  operands (the usual arithmetic conversions): against \<^verbatim>\<open>uint64_t\<close> the bound is
  converted to \<^verbatim>\<open>uint64_t\<close>, modulo \<open>2 ^ 64\<close>; against every narrower type the common
  type is \<^verbatim>\<open>int64_t\<close> and the bound keeps its value.
\<close>

datatype intty = Int64 | UInt64 | Int32 | UInt32 | Int16 | UInt16 | Int8 | UInt8

fun limits_min :: "intty \<Rightarrow> int" where
  "limits_min Int64 = - (2 ^ 63)"
| "limits_min UInt64 = 0"
| "limits_min Int32 = - (2 ^ 31)"
| "limits_min UInt32 = 0"
| "limits_min Int16 = - (2 ^ 15)"
| "limits_min UInt16 = 0"
| "limits_min Int8 = - (2 ^ 7)"
| "limits_min UInt8 = 0"

fun limits_max :: "intty \<Rightarrow> int" where
  "limits_max Int64 = 2 ^ 63 - 1"
| "limits_max UInt64 = 2 ^ 64 - 1"
| "limits_max Int32 = 2 ^ 31 - 1"
| "limits_max UInt32 = 2 ^ 32 - 1"
| "limits_max Int16 = 2 ^ 15 - 1"
| "limits_max UInt16 = 2 ^ 16 - 1"
| "limits_max Int8 = 2 ^ 7 - 1"
| "limits_max UInt8 = 2 ^ 8 - 1"

definition converted :: "intty \<Rightarrow> int \<Rightarrow> int" where
  "converted intty x = (if intty = UInt64 then x mod 2 ^ 64 else x)"

definition try_type :: "int \<Rightarrow> int \<Rightarrow> intty \<Rightarrow> string \<Rightarrow> string \<Rightarrow> SchemaVisitor \<Rightarrow> SchemaVisitor" where
  "try_type mn mx intty ty a v =
     (if converted intty mn \<ge> limits_min intty \<and> converted intty mx \<le> limits_max intty
      then v\<lparr>return_type := ty, adaptor := a\<rparr>
      else v)"

definition probe :: "int \<Rightarrow> int \<Rightarrow> SchemaVisitor \<Rightarrow> SchemaVisitor" where
  "probe mn mx v =
     try_type mn mx UInt8 ''uint8_t'' ''UInt8Adaptor''
      (try_type mn mx Int8 ''int8_t'' ''Int8Adaptor''
      (try_type mn mx UInt16 ''uint16_t'' ''UInt16Adaptor''
      (try_type mn mx Int16 ''int16_t'' ''Int16Adaptor''
      (try_type mn mx UInt32 ''uint32_t'' ''UInt32Adaptor''
      (try_type mn mx Int32 ''int32_t'' ''Int32Adaptor''
      (try_type mn mx UInt64 ''uint64_t'' ''UInt64Adaptor''
      (try_type mn mx Int64 ''int64_t'' ''Int64Adaptor'' v)))))))"

definition handleNumber :: "ucl_ptr \<Rightarrow> bool \<Rightarrow> SchemaVisitor \<Rightarrow> error + SchemaVisitor" where
  "handleNumber num isInteger v =
     (case isIntegral num isInteger of
        Inl err \<Rightarrow> Inl err
      | Inr False \<Rightarrow> Inr (v\<lparr>return_type := ''double'', adaptor := ''DoubleAdaptor''\<rparr>)
      | Inr True \<Rightarrow>
          (case bounds num of
             Inl err \<Rightarrow> Inl err
           | Inr (mn, mx) \<Rightarrow> Inr (probe mn mx v)))"

subsection \<open>The number adaptors of the runtime library\<close>

text \<open>
  \<^verbatim>\<open>NumberAdaptor<NumberType>\<close>, with the default conversion
  \<^verbatim>\<open>ucl_object_toint\<close>: its conversion operator returns
  \<^verbatim>\<open>static_cast<NumberType>(Conversion(obj))\<close>. The cast of an \<^verbatim>\<open>int64_t\<close> to an
  integer type gives the value of that type that is congruent to it modulo the number of
  values of the type.
\<close>

definition static_cast_to :: "intty \<Rightarrow> int \<Rightarrow> int" where
  "static_cast_to NumberType x =
     (x - limits_min NumberType) mod (limits_max NumberType - limits_min NumberType + 1)
     + limits_min NumberType"

definition NumberAdaptor :: "intty \<Rightarrow> ucl_ptr \<Rightarrow> error + int" where
  "NumberAdaptor NumberType o' =
     (case ucl_object_toint o' of
        Inl err \<Rightarrow> Inl err
      | Inr x \<Rightarrow> Inr (static_cast_to NumberType x))"

text \<open>The names under which the header declares the integer adaptors.\<close>

definition NumberAdaptors :: "(string \<times> intty) list" where
  "NumberAdaptors =
     [(''UInt64Adaptor'', UInt64), (''UInt32Adaptor'', UInt32), (''UInt16Adaptor'', UInt16),
      (''UInt8Adaptor'', UInt8), (''Int64Adaptor'', Int64), (''Int32Adaptor'', Int32),
      (''Int16Adaptor'', Int16), (''Int8Adaptor'', Int8)]"

section \<open>The class emitter\<close>

text \<open>
  Modelled from the spec: \<^verbatim>\<open>ucl_object_key\<close>, the key of a node (for object iteration
  each child has its own key). The root, array elements and the null pointer have none.
\<close>

definition ucl_object_key :: "ucl_ptr \<Rightarrow> string option" where
  "ucl_object_key p = (case p of None \<Rightarrow> None | Some n \<Rightarrow> ucl_key n)"

text \<open>
  The named type that \<^verbatim>\<open>get().visit\<close> hands to its visitor, if any: the visit run
  with a visitor that records its argument.
\<close>

definition dispatch :: "ucl_ptr \<Rightarrow> Schema option" where
  "dispatch p = get_visit p (\<lambda>n _. Some n) None"

text \<open>The constructor of \<^verbatim>\<open>SchemaVisitor\<close>; the stream of new types is threaded apart.\<close>

definition SchemaVisitor_new :: "string \<Rightarrow> string \<Rightarrow> SchemaVisitor" where
  "SchemaVisitor_new configNamespace n =
     \<lparr>className = [], return_type = [], adaptor = [], adaptorNamespace = configNamespace,
      lifetimeAttribute = [], name = n\<rparr>"

text \<open>
  The body of the loop of \<^verbatim>\<open>emit_class\<close>: the accessor's name (every \<open>-\<close> replaced
  when there is one), and the accessor rendered from the visitor's fields.
\<close>

definition replace_char :: "char \<Rightarrow> char \<Rightarrow> string \<Rightarrow> string" where
  "replace_char old new s = map (\<lambda>c. if c = old then new else c) s"

definition method_name_of :: "string \<Rightarrow> string" where
  "method_name_of prop_name =
     (if CHR ''-'' \<in> set prop_name then replace_char CHR ''-'' CHR ''_'' prop_name
      else prop_name)"

definition emit_method :: "string \<Rightarrow> bool \<Rightarrow> SchemaVisitor \<Rightarrow> string \<Rightarrow> string \<Rightarrow> string" where
  \<open>emit_method configNamespace isRequired v method_name prop_name =
     (if isRequired then
        return_type v @ '' '' @ method_name @ ''() const '' @ lifetimeAttribute v @ '' {''
        @ ''return '' @ adaptorNamespace v @ adaptor v
        @ ''(obj["'' @ prop_name @ ''"]);}''
      else
        ''std::optional<'' @ return_type v @ ''> '' @ method_name @ ''() const ''
        @ lifetimeAttribute v @ '' {'' @ ''return '' @ configNamespace @ ''::make_optional<''
        @ adaptorNamespace v @ adaptor v @ '', '' @ return_type v
        @ ''>(obj["'' @ prop_name @ ''"]);}'')\<close>

text \<open>The set of required names that \<^verbatim>\<open>emit_class\<close> collects first.\<close>

definition collect_required :: "ucl_ptr \<Rightarrow> string set" where
  "collect_required p = (case required p of Some r \<Rightarrow> set r | None \<Rightarrow> {})"

text \<open>
  Modelled from the spec: a valid accessor identifier. The emitted accessor is a member
  function of a C++ class, so its name is valid when it is a C++ identifier: a letter or an
  underscore, then letters, digits and underscores.
\<close>

definition identifier_start :: "char \<Rightarrow> bool" where
  "identifier_start c =
     (c \<in> set ''abcdefghijklmnopqrstuvwxyzABCDEFGHIJKLMNOPQRSTUVWXYZ_'')"

definition identifier_char :: "char \<Rightarrow> bool" where
  "identifier_char c = (identifier_start c \<or> c \<in> set ''0123456789'')"

definition is_identifier :: "string \<Rightarrow> bool" where
  "is_identifier s =
     (case s of [] \<Rightarrow> False | c # cs \<Rightarrow> identifier_start c \<and> list_all identifier_char cs)"


subsection \<open>What a loop over a range visits\<close>

lemma for_loop_null: "obj it = None \<Longrightarrow> for_loop it = []"
  by (subst for_loop.simps) (simp add: Iter_neq_def Iter_end_def)

lemma for_loop_lib:
  "for_loop \<lparr>iter = Some st, obj = Some x, array = a\<rparr> = Some x # map Some st"
proof (induction st arbitrary: x)
  case Nil
  show ?case
    by (subst for_loop.simps)
       (simp add: Iter_neq_def Iter_end_def Iter_incr_def ucl_object_iterate_safe_def
          for_loop_null)
next
  case (Cons y st)
  show ?case
    by (subst for_loop.simps)
       (simp add: Iter_neq_def Iter_end_def Iter_incr_def ucl_object_iterate_safe_def Cons)
qed

lemma for_loop_incr:
  "for_loop (Iter_incr \<lparr>iter = Some st, obj = x, array = a\<rparr>) = map Some st"
  by (cases st) (simp_all add: Iter_incr_def ucl_object_iterate_safe_def for_loop_null for_loop_lib)

lemma for_loop_begin_properties:
  "for_loop (Iter_begin True arr) = map Some (ucl_object_iterate_new arr)"
  by (simp add: Iter_begin_def for_loop_incr)

lemma for_loop_single:
  "for_loop \<lparr>iter = None, obj = x, array = a\<rparr> = (case x of None \<Rightarrow> [] | Some n \<Rightarrow> [x])"
  by (subst for_loop.simps)
     (simp add: Iter_neq_def Iter_end_def Iter_incr_def for_loop_null split: option.splits)

subsection \<open>Sizes of nodes, for the termination of the emitter\<close>

definition psize :: "ucl_ptr \<Rightarrow> nat" where
  "psize p = (case p of None \<Rightarrow> 0 | Some n \<Rightarrow> size n)"

lemma size_find: "find P xs = Some c \<Longrightarrow> size c < Suc (size_list size xs)"
  by (induction xs) (auto split: if_splits)

lemma psize_lookup: "psize (ucl_object_lookup (Some n) key) < size n"
proof (cases n)
  case (Ucl k v)
  show ?thesis
  proof (cases "ucl_object_lookup (Some n) key")
    case None
    then show ?thesis by (simp add: psize_def Ucl)
  next
    case (Some c)
    then obtain kids where v: "v = UCL_OBJECT kids" and f: "find (\<lambda>c. ucl_key c = Some key) kids = Some c"
      unfolding Ucl by (cases v) auto
    show ?thesis using size_find[OF f] by (simp add: psize_def Ucl v f)
  qed
qed

lemma size_iterate_new: "size_list size (ucl_object_iterate_new p) \<le> Suc (psize p)"
proof (cases p)
  case None
  then show ?thesis by (simp add: psize_def)
next
  case (Some n)
  obtain k v where n: "n = Ucl k v" by (cases n)
  show ?thesis unfolding Some n by (cases v) (simp_all add: psize_def)
qed

lemma size_properties: "size_list psize (properties p) \<le> psize p"
proof (cases p)
  case None
  then show ?thesis by (simp add: properties_def Range_elems_def for_loop_begin_properties psize_def)
next
  case (Some n)
  have "size_list psize (map Some xs) = size_list size xs" for xs
    by (induction xs) (simp_all add: psize_def)
  then have "size_list psize (properties p) = size_list size (ucl_object_iterate_new (ucl_object_lookup p ''properties''))"
    by (simp add: properties_def Range_elems_def for_loop_begin_properties)
  also have "\<dots> \<le> Suc (psize (ucl_object_lookup p ''properties''))" by (rule size_iterate_new)
  also have "\<dots> \<le> psize p" using psize_lookup[of n "''properties''"] by (simp add: Some psize_def)
  finally show ?thesis .
qed

lemma dispatch_cases:
  "dispatch p = Some n \<Longrightarrow> p \<noteq> None \<and> n \<in> {Object p, Array p, String p, Integer p, Boolean p, Number p}"
  by (cases p) (auto simp: dispatch_def get_visit_def visit_def TypeAdaptor_def StringViewAdaptor_def split: if_splits)

subsection \<open>The visitor's call operators and the emitter\<close>

text \<open>
  The texts written by \<^verbatim>\<open>emit_class\<close> and the assignments of the visitor's call
  operators for strings, booleans, objects and arrays. The nested types of a class are
  written to a stream of their own (\<open>types\<close>), its accessors to another (\<open>methods\<close>).
\<close>

definition class_definition :: "string \<Rightarrow> string \<Rightarrow> string \<Rightarrow> string \<Rightarrow> string" where
  "class_definition configNamespace nm types methods =
     ''class '' @ nm @ ''{'' @ configNamespace @ ''UCLPtr obj; public:\<newline>''
     @ nm @ ''(const ucl_object_t *o) : obj(o) {}\<newline>''
     @ types @ methods @ ''};\<newline>''"

definition doc_comment :: "string option \<Rightarrow> string" where
  "doc_comment d = (case d of Some text \<Rightarrow> ''\<newline>/** '' @ text @ '' */\<newline>'' | None \<Rightarrow> [])"

definition property_methods ::
  "string \<Rightarrow> string set \<Rightarrow> ucl_ptr \<Rightarrow> string \<Rightarrow> SchemaVisitor \<Rightarrow> string" where
  "property_methods configNamespace required_properties prop prop_name v =
     doc_comment (description prop)
     @ emit_method configNamespace (prop_name \<in> required_properties) v
         (method_name_of prop_name) prop_name
     @ ''\<newline>\<newline>''"

definition visit_String :: "SchemaVisitor \<Rightarrow> SchemaVisitor" where
  "visit_String v =
     v\<lparr>return_type := ''std::string_view'', adaptor := ''StringViewAdaptor'',
       lifetimeAttribute := ''CONFIG_LIFETIME_BOUND''\<rparr>"

definition visit_Boolean :: "SchemaVisitor \<Rightarrow> SchemaVisitor" where
  "visit_Boolean v = v\<lparr>return_type := ''bool'', adaptor := ''BoolAdaptor''\<rparr>"

definition Object_className :: "SchemaVisitor \<Rightarrow> string" where
  "Object_className v = name v @ ''Class''"

definition visit_Object :: "SchemaVisitor \<Rightarrow> SchemaVisitor" where
  "visit_Object v =
     v\<lparr>className := Object_className v, return_type := Object_className v,
       adaptor := Object_className v, adaptorNamespace := []\<rparr>"

definition Array_itemName :: "SchemaVisitor \<Rightarrow> string" where
  "Array_itemName v = name v @ ''Item''"

definition Array_className :: "string \<Rightarrow> SchemaVisitor \<Rightarrow> string" where
  "Array_className configNamespace item =
     configNamespace @ ''::Range<'' @ return_type item @ '', '' @ adaptor item @ '', true>''"

definition visit_Array :: "string \<Rightarrow> SchemaVisitor \<Rightarrow> SchemaVisitor \<Rightarrow> SchemaVisitor" where
  "visit_Array configNamespace item v =
     v\<lparr>className := Array_className configNamespace item,
       return_type := Array_className configNamespace item,
       adaptor := Array_className configNamespace item, adaptorNamespace := []\<rparr>"

text \<open>
  \<^verbatim>\<open>emit_class\<close>, its loop over the properties (which returns what it appends to the
  two streams) and the visit of one schema by a \<^verbatim>\<open>SchemaVisitor\<close> (which returns the
  visitor and what it appends to the stream of types).
\<close>

function emit_class :: "string \<Rightarrow> ucl_ptr \<Rightarrow> string \<Rightarrow> error + string"
  and emit_properties :: "string \<Rightarrow> string set \<Rightarrow> ucl_ptr list \<Rightarrow> error + (string \<times> string)"
  and visit_schema :: "string \<Rightarrow> ucl_ptr \<Rightarrow> SchemaVisitor \<Rightarrow> error + (SchemaVisitor \<times> string)"
where
  "emit_class configNamespace o' nm =
     (case emit_properties configNamespace (collect_required o') (properties o') of
        Inl err \<Rightarrow> Inl err
      | Inr (types, methods) \<Rightarrow> Inr (class_definition configNamespace nm types methods))"
| "emit_properties configNamespace required_properties [] = Inr ([], [])"
| "emit_properties configNamespace required_properties (prop # props) =
     (case ucl_object_key prop of
        None \<Rightarrow> Inl UndefinedBehaviour
      | Some prop_name \<Rightarrow>
          (case visit_schema configNamespace prop
                  (SchemaVisitor_new configNamespace (method_name_of prop_name)) of
             Inl err \<Rightarrow> Inl err
           | Inr (v, types) \<Rightarrow>
               (case emit_properties configNamespace required_properties props of
                  Inl err \<Rightarrow> Inl err
                | Inr (types', methods') \<Rightarrow>
                    Inr (types @ types',
                         property_methods configNamespace required_properties prop prop_name v
                         @ methods'))))"
| "visit_schema configNamespace p v =
     (case dispatch p of
        None \<Rightarrow> Inr (v, [])
      | Some (String s) \<Rightarrow> Inr (visit_String v, [])
      | Some (Boolean b) \<Rightarrow> Inr (visit_Boolean v, [])
      | Some (Integer i) \<Rightarrow>
          (case handleNumber i True v of Inl err \<Rightarrow> Inl err | Inr v' \<Rightarrow> Inr (v', []))
      | Some (Number n) \<Rightarrow>
          (case handleNumber n False v of Inl err \<Rightarrow> Inl err | Inr v' \<Rightarrow> Inr (v', []))
      | Some (Object ob) \<Rightarrow>
          (case emit_class configNamespace ob (Object_className v) of
             Inl err \<Rightarrow> Inl err
           | Inr types \<Rightarrow> Inr (visit_Object v, types))
      | Some (Array a) \<Rightarrow>
          (case visit_schema configNamespace (items a)
                  (SchemaVisitor_new configNamespace (Array_itemName v)) of
             Inl err \<Rightarrow> Inl err
           | Inr (item, types) \<Rightarrow> Inr (visit_Array configNamespace item v, types)))"
  by pat_completeness auto
termination
proof (relation "measure (\<lambda>x. case x of
          Inl (ns, p, nm) \<Rightarrow> 3 * psize p + 1
        | Inr (Inl (ns, req, props)) \<Rightarrow> 3 * size_list psize props
        | Inr (Inr (ns, p, v)) \<Rightarrow> 3 * psize p + 2)", goal_cases)
  case 1
  show ?case by simp
next
  case (2 ns p nm)
  show ?case using size_properties[of p] by simp
next
  case (3 ns req pr prs)
  show ?case by simp
next
  case (4 ns req pr prs)
  show ?case by simp
next
  case (5 ns p v n ob)
  then show ?case using dispatch_cases[of p n] by auto
next
  case (6 ns p v n a)
  then have "a = p" "p \<noteq> None" using dispatch_cases[of p n] by auto
  then show ?case using psize_lookup[of "the p" "''items''"] by (auto simp: items_def psize_def)
qed

declare emit_class.simps [simp del] visit_schema.simps [simp del]

section \<open>The driver\<close>

text \<open>
  The text of the factory that \<^verbatim>\<open>main\<close> writes after the class when the schema is
  embedded; \<open>schema\<close> is the schema text already escaped as a C string. The generator
  only writes this text: what the function does when it is compiled and called (the
  initialisation of its local static, the calls of the parser and of the validator) is
  the behaviour of a C++ program and has no counterpart in this development.
\<close>

definition make_config_source :: "string \<Rightarrow> string \<Rightarrow> string" where
  \<open>make_config_source configClass schema =
     ''inline std::variant<'' @ configClass @ '', ucl_schema_error> ''
     @ ''make_config(ucl_object_t *obj) {''
     @ ''static const ucl_object_t *schema = []() {''
     @ ''static const char embeddedSchema[] = "'' @ schema @ ''";\<newline>''
     @ ''struct ucl_parser *p = '' @ ''ucl_parser_new(UCL_PARSER_NO_IMPLICIT_ARRAYS);\<newline>''
     @ ''ucl_parser_add_string(p, embeddedSchema, '' @ ''sizeof(embeddedSchema));\<newline>''
     @ ''if (ucl_parser_get_error(p)) { std::terminate(); }\<newline>''
     @ ''auto obj = ucl_parser_get_object(p);\<newline>''
     @ ''ucl_parser_free(p);\<newline>''
     @ ''return obj;\<newline>''
     @ ''}();''
     @ ''ucl_schema_error err;\<newline>''
     @ ''if (!ucl_object_validate(schema, obj, &err)) { return err; }''
     @ ''return '' @ configClass @ ''(obj);\<newline>''
     @ ''}\<newline>\<newline>''\<close>

text \<open>What \<^verbatim>\<open>main\<close> writes, from the generic headers on.\<close>

definition generic_headers :: string where
  \<open>generic_headers =
     ''#include "config-generic.h"\<newline>\<newline>''
     @ ''#include <variant>\<newline>\<newline>''
     @ ''// Machine generated by ''
     @ ''https://github.com/davidchisnall/config-gen DO NOT EDIT\<newline>''
     @ ''#ifdef CONFIG_NAMESPACE_BEGIN\<newline>CONFIG_NAMESPACE_BEGIN\<newline>#endif\<newline>''\<close>

definition namespace_end :: string where
  "namespace_end =
     ''#ifdef CONFIG_NAMESPACE_END\<newline>CONFIG_NAMESPACE_END\<newline>#endif\<newline>\<newline>''"

definition generated_source ::
  "string \<Rightarrow> string \<Rightarrow> bool \<Rightarrow> ucl_ptr \<Rightarrow> string \<Rightarrow> error + string" where
  "generated_source configClass configNamespace embedSchema conf schema =
     (case emit_class configNamespace conf configClass of
        Inl err \<Rightarrow> Inl err
      | Inr cls \<Rightarrow>
          Inr (generic_headers @ cls
               @ (if embedSchema then make_config_source configClass schema else [])
               @ namespace_end))"


section \<open>Facts about the conversions\<close>

text \<open>
  An integer that a 53-bit significand can hold converts to \<^verbatim>\<open>double\<close> exactly; so
  does the truncation of any double. Converting a double to an integer and back gives the
  double again exactly when it is a whole number.
\<close>

lemma int_to_double_exact:
  assumes n: "n = m * 2 ^ k" and m: "\<bar>m\<bar> < 2 ^ 53"
  shows "\<exists>m' s. int_to_double n = Dbl m' (int s) \<and> m' * 2 ^ s = n"
proof -
  define a where "a = \<bar>n\<bar>"
  define s where "s = nat (bitlen a - 53)"
  have a: "a = \<bar>m\<bar> * 2 ^ k" by (simp add: a_def n abs_mult)
  have "a < 2 ^ 53 * 2 ^ k" unfolding a using m by simp
  then have "a < 2 ^ nat (53 + int k)" by (simp add: nat_add_distrib power_add)
  then have "bitlen a \<le> 53 + int k" by (simp add: bitlen_le_iff_power)
  then have sk: "s \<le> k" by (simp add: s_def)
  show ?thesis
  proof (cases "s = 0")
    case True
    then have "int_to_double n = Dbl n 0"
      by (simp add: int_to_double_def Let_def s_def a_def)
    then show ?thesis by (intro exI[of _ n] exI[of _ 0]) simp
  next
    case False
    have dvd: "(2::int) ^ s dvd a"
      unfolding a using sk by (simp add: le_imp_power_dvd dvd_mult)
    then have r: "a mod 2 ^ s = 0" by simp
    have h: "(0::int) < 2 ^ (s - 1)" by simp
    have nz: "\<not> bitlen a \<le> 53" using False by (simp add: s_def)
    have "bitlen a \<le> 53 + int s" by (simp add: s_def)
    then have "a < 2 ^ nat (53 + int s)" by (simp add: bitlen_le_iff_power)
    then have "a div 2 ^ s * 2 ^ s < 2 ^ 53 * 2 ^ s"
      using dvd by (simp add: nat_add_distrib power_add)
    then have q: "a div 2 ^ s \<noteq> 9007199254740992" by auto
    have "int_to_double n = Dbl (sgn n * (a div 2 ^ s)) (int s)"
      using nz h r q by (simp add: int_to_double_def Let_def s_def[symmetric] a_def[symmetric])
    moreover have "sgn n * (a div 2 ^ s) * 2 ^ s = n"
    proof -
      have "a div 2 ^ s * 2 ^ s = a" using dvd by simp
      then have "sgn n * (a div 2 ^ s) * 2 ^ s = sgn n * a" by (simp add: mult.assoc)
      also have "\<dots> = n" by (simp add: a_def mult_sgn_abs)
      finally show ?thesis .
    qed
    ultimately show ?thesis by blast
  qed
qed

lemma dtrunc_abs_le: "\<bar>dtrunc m e\<bar> \<le> \<bar>m\<bar>" if "e < 0"
proof -
  have le: "\<bar>m\<bar> div 2 ^ nat (- e) \<le> \<bar>m\<bar>"
    using zdiv_mono2[of "\<bar>m\<bar>" 1 "2 ^ nat (- e)"] by simp
  have nn: "0 \<le> \<bar>m\<bar> div 2 ^ nat (- e)"
    by (simp add: pos_imp_zdiv_nonneg_iff)
  show ?thesis using that le nn by (simp add: dtrunc_def abs_mult abs_sgn_eq)
qed

lemma dtrunc_representable:
  assumes "\<bar>m\<bar> < 2 ^ 53"
  shows "\<exists>m' k. dtrunc m e = m' * 2 ^ k \<and> \<bar>m'\<bar> < 2 ^ 53"
proof (cases "0 \<le> e")
  case True
  then show ?thesis using assms by (auto simp: dtrunc_def)
next
  case False
  then have "\<bar>dtrunc m e\<bar> < 2 ^ 53" using assms dtrunc_abs_le[of e m] by simp
  then show ?thesis by (intro exI[of _ "dtrunc m e"] exI[of _ 0]) simp
qed

lemma int_to_double_dtrunc:
  assumes "\<bar>m\<bar> < 2 ^ 53"
  shows "\<exists>m' s. int_to_double (dtrunc m e) = Dbl m' (int s) \<and> m' * 2 ^ s = dtrunc m e"
  using dtrunc_representable[OF assms, of e] int_to_double_exact by blast

lemma round_trip_whole:
  assumes "\<bar>m\<bar> < 2 ^ 53"
  shows "double_eq (int_to_double (dtrunc m e)) (Dbl m e) = whole (Dbl m e)"
proof -
  obtain m' s where eq: "int_to_double (dtrunc m e) = Dbl m' (int s)" and v: "m' * 2 ^ s = dtrunc m e"
    using int_to_double_dtrunc[OF assms] by blast
  show ?thesis
  proof (cases "0 \<le> e")
    case True
    define k where "k = min (int s) e"
    have k0: "0 \<le> k" "k \<le> int s" "k \<le> e" using True by (auto simp: k_def)
    have s: "(2::int) ^ s = 2 ^ nat (int s - k) * 2 ^ nat k"
      using k0 by (simp flip: power_add add: nat_diff_distrib)
    have e: "(2::int) ^ nat e = 2 ^ nat (e - k) * 2 ^ nat k"
      using k0 by (simp flip: power_add nat_add_distrib)
    have "m' * 2 ^ s = m * 2 ^ nat e" using v True by (simp add: dtrunc_def)
    then have "(m' * 2 ^ nat (int s - k)) * 2 ^ nat k = (m * 2 ^ nat (e - k)) * 2 ^ nat k"
      using s e by (simp add: mult.assoc)
    then have "m' * 2 ^ nat (int s - k) = m * 2 ^ nat (e - k)" by simp
    then show ?thesis using True by (simp add: eq Let_def k_def)
  next
    case False
    then have mn: "min (int s) e = e" by simp
    have ne: "nat (int s - e) = s + nat (- e)" using False by (simp add: nat_diff_distrib nat_add_distrib)
    have deq: "double_eq (Dbl m' (int s)) (Dbl m e) = (dtrunc m e * 2 ^ nat (- e) = m)"
      by (simp add: Let_def mn ne power_add v flip: mult.assoc)
    have "(dtrunc m e * 2 ^ nat (- e) = m) = (2 ^ nat (- e) dvd m)"
    proof
      assume "dtrunc m e * 2 ^ nat (- e) = m"
      then show "2 ^ nat (- e) dvd m" by (metis dvd_triv_right)
    next
      assume d: "2 ^ nat (- e) dvd m"
      then have "2 ^ nat (- e) dvd \<bar>m\<bar>" by simp
      then have "\<bar>m\<bar> div 2 ^ nat (- e) * 2 ^ nat (- e) = \<bar>m\<bar>" by simp
      then have "sgn m * (\<bar>m\<bar> div 2 ^ nat (- e)) * 2 ^ nat (- e) = sgn m * \<bar>m\<bar>"
        by (simp add: mult.assoc)
      then show "dtrunc m e * 2 ^ nat (- e) = m" using False by (simp add: dtrunc_def mult_sgn_abs)
    qed
    then show ?thesis using False deq unfolding eq by (simp del: double_eq.simps)
  qed
qed


lemma int_to_double_small: "\<bar>n\<bar> < 2 ^ 53 \<Longrightarrow> int_to_double n = Dbl n 0"
proof -
  assume "\<bar>n\<bar> < 2 ^ 53"
  then have "\<bar>n\<bar> < 2 ^ nat 53" by simp
  then have "bitlen \<bar>n\<bar> \<le> 53" by (simp only: bitlen_le_iff_power) simp
  then show ?thesis by (simp add: int_to_double_def Let_def)
qed

lemma int_to_double_INT64_MAX: "int_to_double INT64_MAX = Dbl (2 ^ 52) 11"
proof -
  have "bitlen 9223372036854775807 \<le> 63" "63 \<le> bitlen 9223372036854775807"
    by (simp_all add: bitlen_le_iff_power bitlen_ge_iff_power)
  then have b: "bitlen 9223372036854775807 = 63" by simp
  show ?thesis by (simp add: int_to_double_def INT64_MAX_def Let_def b)
qed

lemma int_to_double_INT64_MIN: "int_to_double INT64_MIN = Dbl (- (2 ^ 52)) 11"
proof -
  have "bitlen 9223372036854775808 \<le> 64" "64 \<le> bitlen 9223372036854775808"
    by (simp_all add: bitlen_le_iff_power bitlen_ge_iff_power)
  then have b: "bitlen 9223372036854775808 = 64" by simp
  show ?thesis by (simp add: int_to_double_def INT64_MIN_def Let_def b)
qed

lemma lower_max_INT64_MAX_None: "lower_max INT64_MAX None = Inl UndefinedBehaviour"
  by (simp add: lower_max_def value_or_def int_to_double_INT64_MAX)
     (simp add: dtrunc_def INT64_MAX_def INT64_MIN_def)

lemma raise_min_INT64_MIN_None: "raise_min INT64_MIN None = Inr INT64_MIN"
  by (simp add: raise_min_def value_or_def int_to_double_INT64_MIN)
     (simp add: dtrunc_def INT64_MAX_def INT64_MIN_def)

lemma bounds_needs_maximum:
  "maximum num = None \<Longrightarrow> bounds num \<noteq> Inr (mn, mx)"
  by (simp add: bounds_def lower_max_INT64_MAX_None split: sum.splits)

lemma try_type_UInt64:
  "try_type mn mx UInt64 ty a v = v\<lparr>return_type := ty, adaptor := a\<rparr>"
proof -
  have "mx mod 2 ^ 64 < 2 ^ 64" by simp
  then have "mx mod 2 ^ 64 \<le> 2 ^ 64 - 1" by linarith
  then show ?thesis by (simp add: try_type_def converted_def)
qed

lemma return_type_try_type:
  "return_type (try_type mn mx t ty a v) = ty \<or> return_type (try_type mn mx t ty a v) = return_type v"
  by (simp add: try_type_def)

lemma probe_never_int64: "return_type (probe mn mx v) \<noteq> ''int64_t''"
proof -
  define v1 where "v1 = try_type mn mx UInt64 ''uint64_t'' ''UInt64Adaptor'' (try_type mn mx Int64 ''int64_t'' ''Int64Adaptor'' v)"
  define v2 where "v2 = try_type mn mx Int32 ''int32_t'' ''Int32Adaptor'' v1"
  define v3 where "v3 = try_type mn mx UInt32 ''uint32_t'' ''UInt32Adaptor'' v2"
  define v4 where "v4 = try_type mn mx Int16 ''int16_t'' ''Int16Adaptor'' v3"
  define v5 where "v5 = try_type mn mx UInt16 ''uint16_t'' ''UInt16Adaptor'' v4"
  define v6 where "v6 = try_type mn mx Int8 ''int8_t'' ''Int8Adaptor'' v5"
  have 1: "return_type v1 = ''uint64_t''" by (simp add: v1_def try_type_UInt64)
  have 2: "return_type v2 \<noteq> ''int64_t''" using return_type_try_type[of mn mx Int32 "''int32_t''" "''Int32Adaptor''" v1] 1 by (auto simp: v2_def)
  have 3: "return_type v3 \<noteq> ''int64_t''" using return_type_try_type[of mn mx UInt32 "''uint32_t''" "''UInt32Adaptor''" v2] 2 by (auto simp: v3_def)
  have 4: "return_type v4 \<noteq> ''int64_t''" using return_type_try_type[of mn mx Int16 "''int16_t''" "''Int16Adaptor''" v3] 3 by (auto simp: v4_def)
  have 5: "return_type v5 \<noteq> ''int64_t''" using return_type_try_type[of mn mx UInt16 "''uint16_t''" "''UInt16Adaptor''" v4] 4 by (auto simp: v5_def)
  have 6: "return_type v6 \<noteq> ''int64_t''" using return_type_try_type[of mn mx Int8 "''int8_t''" "''Int8Adaptor''" v5] 5 by (auto simp: v6_def)
  have "probe mn mx v = try_type mn mx UInt8 ''uint8_t'' ''UInt8Adaptor'' v6"
    by (simp add: probe_def v6_def v5_def v4_def v3_def v2_def v1_def)
  then show ?thesis using return_type_try_type[of mn mx UInt8 "''uint8_t''" "''UInt8Adaptor''" v6] 6 by auto
qed

section \<open>Numeric resolution\<close>

lemma double_to_int64_int_to_double:
  assumes "n = m * 2 ^ k" "\<bar>m\<bar> < 2 ^ 53" "INT64_MIN \<le> n" "n \<le> INT64_MAX"
  shows "double_to_int64 (int_to_double n) = Inr n"
proof -
  from int_to_double_exact[OF assms(1,2)] obtain m' s where
    "int_to_double n = Dbl m' (int s)" "m' * 2 ^ s = n" by blast
  then show ?thesis using assms(3,4) by (simp add: dtrunc_def)
qed

lemma raise_min_absent:
  assumes "mn = m * 2 ^ k" "\<bar>m\<bar> < 2 ^ 53" "INT64_MIN \<le> mn" "mn \<le> INT64_MAX"
  shows "raise_min mn None = Inr mn"
  using double_to_int64_int_to_double[OF assms] by (simp add: raise_min_def value_or_def)

lemma lower_max_absent:
  assumes "mx = m * 2 ^ k" "\<bar>m\<bar> < 2 ^ 53" "INT64_MIN \<le> mx" "mx \<le> INT64_MAX"
  shows "lower_max mx None = Inr mx"
  using double_to_int64_int_to_double[OF assms] by (simp add: lower_max_def value_or_def)

text \<open>
  With an inclusive minimum and maximum whose truncations are in the range of
  \<^verbatim>\<open>int64_t\<close>, and no exclusive bounds, the interval is the pair of the truncations.
\<close>

lemma bounds_minimum_maximum:
  assumes "minimum num = Some (Dbl lm le)" "\<bar>lm\<bar> < 2 ^ 53"
    and "INT64_MIN \<le> dtrunc lm le" "dtrunc lm le \<le> INT64_MAX"
    and "maximum num = Some (Dbl hm he)" "\<bar>hm\<bar> < 2 ^ 53"
    and "INT64_MIN \<le> dtrunc hm he" "dtrunc hm he \<le> INT64_MAX"
    and "exclusiveMinimum num = None" "exclusiveMaximum num = None"
  shows "bounds num = Inr (dtrunc lm le, dtrunc hm he)"
proof -
  have 1: "raise_min INT64_MIN (minimum num) = Inr (dtrunc lm le)"
    using assms(1,3,4) by (simp add: raise_min_def value_or_def max_def)
  obtain m k where "dtrunc lm le = m * 2 ^ k" "\<bar>m\<bar> < 2 ^ 53"
    using dtrunc_representable[OF assms(2)] by blast
  then have 2: "raise_min (dtrunc lm le) (exclusiveMinimum num) = Inr (dtrunc lm le)"
    using raise_min_absent assms(3,4,9) by simp
  have 3: "lower_max INT64_MAX (maximum num) = Inr (dtrunc hm he)"
    using assms(5,7,8) by (simp add: lower_max_def value_or_def min_def)
  obtain m' k' where "dtrunc hm he = m' * 2 ^ k'" "\<bar>m'\<bar> < 2 ^ 53"
    using dtrunc_representable[OF assms(6)] by blast
  then have 4: "lower_max (dtrunc hm he) (exclusiveMaximum num) = Inr (dtrunc hm he)"
    using lower_max_absent assms(7,8,10) by simp
  show ?thesis by (simp add: bounds_def 1 2 3 4)
qed

text \<open>
  An exclusive bound is folded in as it stands, with no adjustment by one.
\<close>

lemma raise_min_supplied:
  "INT64_MIN \<le> dtrunc m e \<Longrightarrow> dtrunc m e \<le> INT64_MAX \<Longrightarrow>
   raise_min mn (Some (Dbl m e)) = Inr (max mn (dtrunc m e))"
  by (simp add: raise_min_def value_or_def)

lemma lower_max_supplied:
  "INT64_MIN \<le> dtrunc m e \<Longrightarrow> dtrunc m e \<le> INT64_MAX \<Longrightarrow>
   lower_max mx (Some (Dbl m e)) = Inr (min mx (dtrunc m e))"
  by (simp add: lower_max_def value_or_def)


lemma isIntegral_multipleOf:
  assumes "multipleOf num = Some d" "wf_double d" "uint64_convertible d"
  shows "isIntegral num False = Inr (whole d)"
proof -
  obtain m e where d: "d = Dbl m e" using assms(3) by (cases d) auto
  have m: "\<bar>m\<bar> < 2 ^ 53" using assms(2) by (simp add: d)
  have "double_to_uint64 d = Inr (dtrunc m e)" using assms(3) by (simp add: d)
  then show ?thesis
    using round_trip_whole[OF m, of e] assms(1) by (simp add: isIntegral_def d del: double_eq.simps whole.simps)
qed

lemma isIntegral_not_convertible:
  assumes "multipleOf num = Some d" "\<not> uint64_convertible d"
  shows "isIntegral num False = Inl UndefinedBehaviour"
  using assms by (cases d) (simp_all add: isIntegral_def)

text \<open>
  The bounds \<open>[0, 255]\<close> and \<open>[-100, 100]\<close> resolve to \<^verbatim>\<open>uint8_t\<close> and \<^verbatim>\<open>int8_t\<close>;
  an integer schema with no bounds reaches the undefined conversion of its upper bound.
\<close>

lemma handleNumber_examples:
  "handleNumber
     (Some (Ucl None (UCL_OBJECT
        [Ucl (Some ''type'') (UCL_STRING ''integer''),
         Ucl (Some ''minimum'') (UCL_INT 0),
         Ucl (Some ''maximum'') (UCL_INT 255)])))
     True (SchemaVisitor_new ''::config::detail::'' ''x'')
   = Inr ((SchemaVisitor_new ''::config::detail::'' ''x'')
            \<lparr>return_type := ''uint8_t'', adaptor := ''UInt8Adaptor''\<rparr>)"
  "handleNumber
     (Some (Ucl None (UCL_OBJECT
        [Ucl (Some ''type'') (UCL_STRING ''integer''),
         Ucl (Some ''minimum'') (UCL_INT (- 100)),
         Ucl (Some ''maximum'') (UCL_INT 100)])))
     True (SchemaVisitor_new ''::config::detail::'' ''x'')
   = Inr ((SchemaVisitor_new ''::config::detail::'' ''x'')
            \<lparr>return_type := ''int8_t'', adaptor := ''Int8Adaptor''\<rparr>)"
  "handleNumber
     (Some (Ucl None (UCL_OBJECT [Ucl (Some ''type'') (UCL_STRING ''integer'')])))
     True (SchemaVisitor_new ''::config::detail::'' ''x'')
   = Inl UndefinedBehaviour"
  by code_simp+

text \<open>
  Claim C1, on the order of the probes and the type they select. The probe of
  \<^verbatim>\<open>uint64_t\<close> compares the bounds after their conversion to \<^verbatim>\<open>uint64_t\<close>, so it
  succeeds whatever the bounds are and always overrides the probe of \<^verbatim>\<open>int64_t\<close>
  (\<open>probe_never_int64\<close>). At the integer schema with minimum \<open>- 2 ^ 40\<close> and maximum
  \<open>2 ^ 40\<close> the interval is within the range of \<^verbatim>\<open>int64_t\<close> and not within the range
  of \<^verbatim>\<open>uint64_t\<close>, and the type selected is \<^verbatim>\<open>uint64_t\<close>.
\<close>

theorem handleNumber_negative_bounds_uint64:
  "handleNumber
     (Some (Ucl None (UCL_OBJECT
        [Ucl (Some ''type'') (UCL_STRING ''integer''),
         Ucl (Some ''minimum'') (UCL_INT (- 1099511627776)),
         Ucl (Some ''maximum'') (UCL_INT 1099511627776)])))
     True (SchemaVisitor_new ''::config::detail::'' ''x'')
   = Inr ((SchemaVisitor_new ''::config::detail::'' ''x'')
            \<lparr>return_type := ''uint64_t'', adaptor := ''UInt64Adaptor''\<rparr>)
   \<and> bounds
     (Some (Ucl None (UCL_OBJECT
        [Ucl (Some ''type'') (UCL_STRING ''integer''),
         Ucl (Some ''minimum'') (UCL_INT (- 1099511627776)),
         Ucl (Some ''maximum'') (UCL_INT 1099511627776)])))
   = Inr (- 1099511627776, 1099511627776)
   \<and> - 1099511627776 < limits_min UInt64
   \<and> limits_min Int64 \<le> - 1099511627776 \<and> 1099511627776 \<le> limits_max Int64"
  by code_simp

text \<open>
  Which properties are integral. With an integer kind the property is
  integral; without \<open>multipleOf\<close> a number is not; with a \<open>multipleOf\<close> on which the
  conversion to \<^verbatim>\<open>uint64_t\<close> is defined, a number is integral exactly when the
  \<open>multipleOf\<close> is a whole number; with any other \<open>multipleOf\<close> the test of a number is
  undefined. A property that is not integral resolves to \<^verbatim>\<open>double\<close> with
  \<^verbatim>\<open>DoubleAdaptor\<close> whatever its bounds are; an integral one goes on to the bounds and
  the probes.
\<close>

lemma isIntegral_rule:
  assumes "case multipleOf num of None \<Rightarrow> True | Some d \<Rightarrow> wf_double d"
  shows "if \<not> isInteger
            \<and> (case multipleOf num of None \<Rightarrow> False | Some d \<Rightarrow> \<not> uint64_convertible d)
         then isIntegral num isInteger = Inl UndefinedBehaviour
              \<and> handleNumber num isInteger v = Inl UndefinedBehaviour
         else isIntegral num isInteger
                = Inr (isInteger \<or> (case multipleOf num of None \<Rightarrow> False | Some d \<Rightarrow> whole d))
              \<and> (if isInteger \<or> (case multipleOf num of None \<Rightarrow> False | Some d \<Rightarrow> whole d)
                 then handleNumber num isInteger v
                      = (case bounds num of
                           Inl err \<Rightarrow> Inl err
                         | Inr (mn, mx) \<Rightarrow> Inr (probe mn mx v))
                 else handleNumber num isInteger v
                      = Inr (v\<lparr>return_type := ''double'', adaptor := ''DoubleAdaptor''\<rparr>))"
proof (cases "\<not> isInteger
            \<and> (case multipleOf num of None \<Rightarrow> False | Some d \<Rightarrow> \<not> uint64_convertible d)")
  case True
  then obtain d where d: "multipleOf num = Some d" "\<not> uint64_convertible d" "\<not> isInteger"
    by (auto split: option.splits)
  then have "isIntegral num isInteger = Inl UndefinedBehaviour"
    using isIntegral_not_convertible[of num d] by simp
  then show ?thesis using True by (simp add: handleNumber_def)
next
  case False
  let ?w = "case multipleOf num of None \<Rightarrow> False | Some d \<Rightarrow> whole d"
  have i: "isIntegral num isInteger = Inr (isInteger \<or> ?w)"
  proof (cases isInteger)
    case True
    then show ?thesis by (simp add: isIntegral_def)
  next
    case nint: False
    show ?thesis
    proof (cases "multipleOf num")
      case None
      then show ?thesis using nint by (simp add: isIntegral_def)
    next
      case (Some d)
      then have "wf_double d" "uint64_convertible d" using assms False nint by simp_all
      then show ?thesis using nint Some isIntegral_multipleOf[of num d] by simp
    qed
  qed
  have h: "if isInteger \<or> ?w
           then handleNumber num isInteger v
                = (case bounds num of Inl err \<Rightarrow> Inl err | Inr (mn, mx) \<Rightarrow> Inr (probe mn mx v))
           else handleNumber num isInteger v
                = Inr (v\<lparr>return_type := ''double'', adaptor := ''DoubleAdaptor''\<rparr>)"
  proof (cases "isInteger \<or> ?w")
    case True
    then show ?thesis using i by (simp add: handleNumber_def)
  next
    case nw: False
    then show ?thesis using i by (simp add: handleNumber_def)
  qed
  show ?thesis unfolding if_not_P[OF False] using i h by (rule conjI)
qed

lemma isIntegral_rule_examples:
  "isIntegral (Some (Ucl None (UCL_OBJECT
        [Ucl (Some ''type'') (UCL_STRING ''number''),
         Ucl (Some ''multipleOf'') (UCL_INT 5)]))) False = Inr True
   \<and> handleNumber (Some (Ucl None (UCL_OBJECT
        [Ucl (Some ''type'') (UCL_STRING ''number''),
         Ucl (Some ''multipleOf'') (UCL_FLOAT (Dbl 1 (- 1)))]))) False
        (SchemaVisitor_new ''::config::detail::'' ''x'')
     = Inr ((SchemaVisitor_new ''::config::detail::'' ''x'')
            \<lparr>return_type := ''double'', adaptor := ''DoubleAdaptor''\<rparr>)
   \<and> handleNumber (Some (Ucl None (UCL_OBJECT
        [Ucl (Some ''type'') (UCL_STRING ''number''),
         Ucl (Some ''multipleOf'') (UCL_INT (- 2))]))) False
        (SchemaVisitor_new ''::config::detail::'' ''x'')
     = Inl UndefinedBehaviour"
proof -
  let ?five = "Some (Ucl None (UCL_OBJECT
        [Ucl (Some ''type'') (UCL_STRING ''number''),
         Ucl (Some ''multipleOf'') (UCL_INT 5)]))"
  let ?half = "Some (Ucl None (UCL_OBJECT
        [Ucl (Some ''type'') (UCL_STRING ''number''),
         Ucl (Some ''multipleOf'') (UCL_FLOAT (Dbl 1 (- 1)))]))"
  let ?neg = "Some (Ucl None (UCL_OBJECT
        [Ucl (Some ''type'') (UCL_STRING ''number''),
         Ucl (Some ''multipleOf'') (UCL_INT (- 2))]))"
  let ?v = "SchemaVisitor_new ''::config::detail::'' ''x''"
  have five: "multipleOf ?five = Some (Dbl 5 0)"
    by (simp add: multipleOf_def make_optional_def DoubleAdaptor_def int_to_double_small)
  have half: "multipleOf ?half = Some (Dbl 1 (- 1))"
    by (simp add: multipleOf_def make_optional_def DoubleAdaptor_def)
  have neg: "multipleOf ?neg = Some (Dbl (- 2) 0)"
    by (simp add: multipleOf_def make_optional_def DoubleAdaptor_def int_to_double_small)
  have h5: "case multipleOf ?five of None \<Rightarrow> True | Some d \<Rightarrow> wf_double d"
    by (simp add: five)
  have hh: "case multipleOf ?half of None \<Rightarrow> True | Some d \<Rightarrow> wf_double d"
    by (simp add: half)
  have hn: "case multipleOf ?neg of None \<Rightarrow> True | Some d \<Rightarrow> wf_double d"
    by (simp add: neg)
  from isIntegral_rule[OF h5, of False ?v]
  have 1: "isIntegral ?five False = Inr True"
    by (simp add: five dtrunc_def UINT64_MAX_def)
  from isIntegral_rule[OF hh, of False ?v]
  have 2: "handleNumber ?half False ?v
           = Inr (?v\<lparr>return_type := ''double'', adaptor := ''DoubleAdaptor''\<rparr>)"
    by (simp add: half dtrunc_def UINT64_MAX_def)
  from isIntegral_rule[OF hn, of False ?v]
  have 3: "handleNumber ?neg False ?v = Inl UndefinedBehaviour"
    by (simp add: neg dtrunc_def UINT64_MAX_def)
  from 1 2 3 show ?thesis by blast
qed

text \<open>
  Claim C4, on which properties are integral. The test of a \<open>multipleOf\<close> for wholeness
  casts it to \<^verbatim>\<open>uint64_t\<close> and back, and the cast is not guarded: it is defined only
  for a value whose truncation is within the range of \<^verbatim>\<open>uint64_t\<close>. At the number
  schema with \<open>multipleOf\<close> \<open>2 ^ 64\<close>, which is a double and a whole number, the test is
  undefined and so is the resolution of the property, where the claim gives an integral
  property.
\<close>

theorem isIntegral_whole_multipleOf_undefined:
  "multipleOf (Some (Ucl None (UCL_OBJECT
        [Ucl (Some ''type'') (UCL_STRING ''number''),
         Ucl (Some ''multipleOf'') (UCL_FLOAT (Dbl 1 64))]))) = Some (Dbl 1 64)
   \<and> wf_double (Dbl 1 64) \<and> whole (Dbl 1 64)
   \<and> isIntegral (Some (Ucl None (UCL_OBJECT
        [Ucl (Some ''type'') (UCL_STRING ''number''),
         Ucl (Some ''multipleOf'') (UCL_FLOAT (Dbl 1 64))]))) False = Inl UndefinedBehaviour
   \<and> double_to_uint64 (Dbl 1 64) = Inl UndefinedBehaviour
   \<and> UINT64_MAX < dtrunc 1 64
   \<and> handleNumber (Some (Ucl None (UCL_OBJECT
        [Ucl (Some ''type'') (UCL_STRING ''number''),
         Ucl (Some ''multipleOf'') (UCL_FLOAT (Dbl 1 64))]))) False
        (SchemaVisitor_new ''::config::detail::'' ''x'') = Inl UndefinedBehaviour"
  by code_simp

text \<open>
  Claim C5, on the bound interval. The upper bound starts at the largest \<^verbatim>\<open>int64_t\<close>;
  when the schema has no \<open>maximum\<close>, \<^verbatim>\<open>value_or\<close> converts that start to
  \<^verbatim>\<open>double\<close>, which rounds it up to \<open>2 ^ 63\<close>, and the cast back to \<^verbatim>\<open>int64_t\<close> is
  out of range. At the integer schema with minimum \<open>0\<close> and exclusive maximum \<open>100\<close> the
  interval is undefined, where the claim gives \<open>[0, 100]\<close>.
\<close>

theorem bounds_without_maximum_undefined:
  "bounds
     (Some (Ucl None (UCL_OBJECT
        [Ucl (Some ''type'') (UCL_STRING ''integer''),
         Ucl (Some ''minimum'') (UCL_INT 0),
         Ucl (Some ''exclusiveMaximum'') (UCL_INT 100)])))
   = Inl UndefinedBehaviour
   \<and> value_or None INT64_MAX = Dbl (2 ^ 52) 11
   \<and> INT64_MAX < dtrunc (2 ^ 52) 11
   \<and> lower_max INT64_MAX None = Inl UndefinedBehaviour"
  by code_simp

section \<open>Dispatch on the kind of a schema\<close>

lemma visit_impl_dispatch:
  "visit_impl Types p key v s =
     (case visit_impl Types p key (\<lambda>n _. Some n) None of None \<Rightarrow> s | Some n \<Rightarrow> v n s)"
  by (induction Types) auto

lemma get_visit_dispatch:
  "get_visit p v s = (case dispatch p of None \<Rightarrow> s | Some n \<Rightarrow> v n s)"
  unfolding get_visit_def dispatch_def visit_def by (rule visit_impl_dispatch)

text \<open>
  Claim C9: a node whose \<open>type\<close> is missing, or is not one of the six kind strings, is a
  resolution failure. The visit calls no handler (whatever the visitor, the state it
  threads comes back unchanged), and the enumeration adaptor yields none of the six tags:
  it yields \<open>- 1\<close> for an unknown string and is undefined when there is no string at all.
\<close>

theorem unrecognized_type_dispatch:
  assumes "ucl_object_lookup p ''type'' = None
           \<or> StringViewAdaptor (ucl_object_lookup p ''type'')
               \<notin> {''object'', ''array'', ''string'', ''integer'', ''boolean'', ''number''}"
  shows "get_visit p v s = s \<and> dispatch p = None \<and> (\<forall>t. type p \<noteq> Inr (Type_value t))"
proof -
  let ?key = "StringViewAdaptor (ucl_object_lookup p ''type'')"
  have key: "?key \<notin> {''object'', ''array'', ''string'', ''integer'', ''boolean'', ''number''}"
    using assms by (auto simp: StringViewAdaptor_def)
  have d: "dispatch p = None"
    using key by (simp add: dispatch_def get_visit_def visit_def TypeAdaptor_def)
  have t: "type p \<noteq> Inr (Type_value t)" for t
  proof (cases "ucl_object_tostring (ucl_object_lookup p ''type'')")
    case None
    then show ?thesis by (simp add: type_def TypeEnumAdaptor_def EnumAdaptor_def)
  next
    case (Some str)
    then have "?key = str" by (simp add: StringViewAdaptor_def)
    then have "type p = Inr (- 1)"
      using key Some by (simp add: type_def TypeEnumAdaptor_def EnumAdaptor_def)
    then show ?thesis by (cases t) simp_all
  qed
  show ?thesis using d t by (simp add: get_visit_dispatch)
qed

theorem unrecognized_type_dispatch_witness:
  "get_visit (Some (Ucl None (UCL_OBJECT [Ucl (Some ''type'') (UCL_STRING ''tuple'')])))
     (\<lambda>n k. Suc k) 0 = 0
   \<and> dispatch (Some (Ucl None (UCL_OBJECT [Ucl (Some ''type'') (UCL_STRING ''tuple'')]))) = None
   \<and> (\<forall>t. type (Some (Ucl None (UCL_OBJECT [Ucl (Some ''type'') (UCL_STRING ''tuple'')])))
            \<noteq> Inr (Type_value t))
   \<and> get_visit (Some (Ucl None (UCL_OBJECT []))) (\<lambda>n k. Suc k) 0 = 0
   \<and> (\<forall>t. type (Some (Ucl None (UCL_OBJECT []))) \<noteq> Inr (Type_value t))"
proof -
  have a: "ucl_object_lookup (Some (Ucl None (UCL_OBJECT [Ucl (Some ''type'') (UCL_STRING ''tuple'')]))) ''type'' = None
           \<or> StringViewAdaptor (ucl_object_lookup (Some (Ucl None (UCL_OBJECT [Ucl (Some ''type'') (UCL_STRING ''tuple'')]))) ''type'')
               \<notin> {''object'', ''array'', ''string'', ''integer'', ''boolean'', ''number''}"
    by (simp add: StringViewAdaptor_def)
  have b: "ucl_object_lookup (Some (Ucl None (UCL_OBJECT []))) ''type'' = None
           \<or> StringViewAdaptor (ucl_object_lookup (Some (Ucl None (UCL_OBJECT []))) ''type'')
               \<notin> {''object'', ''array'', ''string'', ''integer'', ''boolean'', ''number''}"
    by simp
  show ?thesis
    using unrecognized_type_dispatch[OF a, of "\<lambda>n k. Suc k" 0]
          unrecognized_type_dispatch[OF b, of "\<lambda>n k. Suc k" 0]
    by simp
qed

section \<open>Iteration over ranges\<close>

lemma for_loop_begin_False:
  "ucl_object_type arr \<noteq> T_ARRAY \<Longrightarrow>
   for_loop (Iter_begin False arr) = (case arr of None \<Rightarrow> [] | Some n \<Rightarrow> [arr])"
  by (simp add: Iter_begin_def for_loop_single)

lemma for_loop_begin_array:
  "for_loop (Iter_begin IterateProperties (Some (Ucl k (UCL_ARRAY elems)))) = map Some elems"
  by (simp add: Iter_begin_def for_loop_incr)

text \<open>
  Claim C7, on what a loop over a range yields. The elements of an array come in document
  order. A value that is neither an array nor an object is yielded as the only element.
  An object is yielded as the only element by a range that does not iterate properties;
  a range that iterates properties yields the object's properties instead, and the range
  type generated for an array-typed property is instantiated with that flag set
  (\<^verbatim>\<open>, true>\<close>). The elements are a function of the range's node alone, which no
  iteration changes: every call of \<open>begin\<close> starts again from the first element.
\<close>

theorem range_elements:
  "Range_elems IterateProperties Adaptor (Some n) =
     map Adaptor
       (case ucl_val n of
          UCL_ARRAY elems \<Rightarrow> map Some elems
        | UCL_OBJECT kids \<Rightarrow> if IterateProperties then map Some kids else [Some n]
        | _ \<Rightarrow> [Some n])
   \<and> Range_elems IterateProperties Adaptor None = []
   \<and> return_type (visit_Array configNamespace item v)
       = configNamespace @ ''::Range<'' @ return_type item @ '', '' @ adaptor item @ '', true>''"
proof -
  obtain k val where n: "n = Ucl k val" by (cases n)
  have 1: "for_loop (Iter_begin IterateProperties (Some n)) =
       (case ucl_val n of
          UCL_ARRAY elems \<Rightarrow> map Some elems
        | UCL_OBJECT kids \<Rightarrow> if IterateProperties then map Some kids else [Some n]
        | _ \<Rightarrow> [Some n])"
  proof (cases IterateProperties)
    case True
    then have ip: "IterateProperties = True" by simp
    show ?thesis unfolding ip n by (cases val) (simp_all add: for_loop_begin_properties)
  next
    case False
    then have ip: "IterateProperties = False" by simp
    show ?thesis unfolding ip n
      by (cases val) (simp_all add: for_loop_begin_False for_loop_begin_array)
  qed
  have 2: "for_loop (Iter_begin IterateProperties None) = []"
    by (cases IterateProperties) (simp_all add: for_loop_begin_properties for_loop_begin_False)
  show ?thesis using 1 2 by (simp add: Range_elems_def visit_Array_def Array_className_def)
qed

lemma range_examples:
  "Range_elems True (\<lambda>x. x) (Some (Ucl (Some ''xs'') (UCL_ARRAY [Ucl None (UCL_INT 1), Ucl None (UCL_INT 2), Ucl None (UCL_INT 3)])))
     = [Some (Ucl None (UCL_INT 1)), Some (Ucl None (UCL_INT 2)), Some (Ucl None (UCL_INT 3))]"
  "Range_elems True (\<lambda>x. x) (Some (Ucl (Some ''xs'') (UCL_INT 5))) = [Some (Ucl (Some ''xs'') (UCL_INT 5))]"
  "Range_elems False (\<lambda>x. x) (Some (Ucl (Some ''xs'') (UCL_INT 5))) = [Some (Ucl (Some ''xs'') (UCL_INT 5))]"
  by code_simp+

text \<open>
  The scalar-as-list reading does not extend to objects: the range generated for an
  array of strings iterates properties, and over an object with two properties it yields
  the two properties, not the object.
\<close>

theorem range_over_object_counterexample:
  "Range_elems True (\<lambda>x. x)
     (Some (Ucl (Some ''xs'') (UCL_OBJECT [Ucl (Some ''a'') (UCL_INT 1), Ucl (Some ''b'') (UCL_INT 2)])))
   = [Some (Ucl (Some ''a'') (UCL_INT 1)), Some (Ucl (Some ''b'') (UCL_INT 2))]
   \<and> Range_elems True (\<lambda>x. x)
     (Some (Ucl (Some ''xs'') (UCL_OBJECT [Ucl (Some ''a'') (UCL_INT 1), Ucl (Some ''b'') (UCL_INT 2)])))
   \<noteq> [Some (Ucl (Some ''xs'') (UCL_OBJECT [Ucl (Some ''a'') (UCL_INT 1), Ucl (Some ''b'') (UCL_INT 2)]))]
   \<and> ucl_object_type
     (Some (Ucl (Some ''xs'') (UCL_OBJECT [Ucl (Some ''a'') (UCL_INT 1), Ucl (Some ''b'') (UCL_INT 2)])))
   \<noteq> T_ARRAY
   \<and> visit_schema ''::config::detail::''
       (Some (Ucl (Some ''xs'') (UCL_OBJECT
          [Ucl (Some ''type'') (UCL_STRING ''array''),
           Ucl (Some ''items'') (UCL_OBJECT [Ucl (Some ''type'') (UCL_STRING ''string'')])])))
       (SchemaVisitor_new ''::config::detail::'' ''xs'')
     = Inr ((SchemaVisitor_new ''::config::detail::'' ''xs'')
             \<lparr>className := ''::config::detail::::Range<std::string_view, StringViewAdaptor, true>'',
              return_type := ''::config::detail::::Range<std::string_view, StringViewAdaptor, true>'',
              adaptor := ''::config::detail::::Range<std::string_view, StringViewAdaptor, true>'',
              adaptorNamespace := []\<rparr>, [])"
  by code_simp

section \<open>The emitted class\<close>


lemma sublist_class_definition:
  "sublist methods (class_definition ns nm types methods)"
  "sublist types (class_definition ns nm types methods)"
proof -
  show "sublist methods (class_definition ns nm types methods)"
    unfolding class_definition_def sublist_def
    by (intro exI[of _ "''class '' @ nm @ ''{'' @ ns @ ''UCLPtr obj; public:\<newline>'' @ nm @ ''(const ucl_object_t *o) : obj(o) {}\<newline>'' @ types"] exI[of _ "''};\<newline>''"]) simp
  show "sublist types (class_definition ns nm types methods)"
    unfolding class_definition_def sublist_def
    by (intro exI[of _ "''class '' @ nm @ ''{'' @ ns @ ''UCLPtr obj; public:\<newline>'' @ nm @ ''(const ucl_object_t *o) : obj(o) {}\<newline>''"] exI[of _ "methods @ ''};\<newline>''"]) simp
qed

lemma sublist_trans': "sublist xs ys \<Longrightarrow> sublist ys zs \<Longrightarrow> sublist xs zs"
  unfolding sublist_def by (metis append.assoc)

lemma emit_properties_member:
  assumes "emit_properties ns req props = Inr (types, methods)"
    and "prop \<in> set props" and "ucl_object_key prop = Some k"
  shows "\<exists>v t. visit_schema ns prop (SchemaVisitor_new ns (method_name_of k)) = Inr (v, t)
           \<and> sublist (property_methods ns req prop k v) methods \<and> sublist t types"
  using assms
proof (induction props arbitrary: types methods)
  case Nil
  then show ?case by simp
next
  case (Cons p ps)
  from Cons.prems(1) obtain pk v t types' methods' where
    pk: "ucl_object_key p = Some pk"
    and v: "visit_schema ns p (SchemaVisitor_new ns (method_name_of pk)) = Inr (v, t)"
    and rest: "emit_properties ns req ps = Inr (types', methods')"
    and ty: "types = t @ types'"
    and me: "methods = property_methods ns req p pk v @ methods'"
    by (auto split: option.splits sum.splits)
  show ?case
  proof (cases "prop = p")
    case True
    then have "pk = k" using pk Cons.prems(3) by simp
    then show ?thesis using v True ty me by auto
  next
    case False
    then have "prop \<in> set ps" using Cons.prems(2) by simp
    from Cons.IH[OF rest this Cons.prems(3)] obtain v' t' where
      "visit_schema ns prop (SchemaVisitor_new ns (method_name_of k)) = Inr (v', t')"
      "sublist (property_methods ns req prop k v') methods'" "sublist t' types'"
      by blast
    then show ?thesis unfolding ty me
      by (metis sublist_append_leftI sublist_trans')
  qed
qed

text \<open>
  The two streams of a class are the texts of its properties, each in the order of the
  properties: the nested types that the visit of each property writes, and the accessor
  of each property.
\<close>

lemma emit_properties_streams:
  assumes "emit_properties ns req props = Inr (types, methods)"
  shows "\<exists>parts.
           list_all2 (\<lambda>pr (t, m). \<exists>P v. ucl_object_key pr = Some P
                        \<and> visit_schema ns pr (SchemaVisitor_new ns (method_name_of P)) = Inr (v, t)
                        \<and> m = property_methods ns req pr P v) props parts
         \<and> types = concat (map fst parts) \<and> methods = concat (map snd parts)"
  using assms
proof (induction props arbitrary: types methods)
  case Nil
  then show ?case by simp
next
  case (Cons p ps)
  from Cons.prems(1) obtain pk v t types' methods' where
    pk: "ucl_object_key p = Some pk"
    and v: "visit_schema ns p (SchemaVisitor_new ns (method_name_of pk)) = Inr (v, t)"
    and rest: "emit_properties ns req ps = Inr (types', methods')"
    and ty: "types = t @ types'"
    and me: "methods = property_methods ns req p pk v @ methods'"
    by (auto split: option.splits sum.splits)
  from Cons.IH[OF rest] obtain parts where
    l: "list_all2 (\<lambda>pr (t, m). \<exists>P v. ucl_object_key pr = Some P
                        \<and> visit_schema ns pr (SchemaVisitor_new ns (method_name_of P)) = Inr (v, t)
                        \<and> m = property_methods ns req pr P v) ps parts"
    and t': "types' = concat (map fst parts)" and m': "methods' = concat (map snd parts)"
    by blast
  let ?parts = "(t, property_methods ns req p pk v) # parts"
  have "list_all2 (\<lambda>pr (t, m). \<exists>P v. ucl_object_key pr = Some P
                        \<and> visit_schema ns pr (SchemaVisitor_new ns (method_name_of P)) = Inr (v, t)
                        \<and> m = property_methods ns req pr P v) (p # ps) ?parts"
    using l pk v by simp
  moreover have "types = concat (map fst ?parts)" "methods = concat (map snd ?parts)"
    using ty me t' m' by simp_all
  ultimately show ?case by blast
qed

lemma emit_class_Inr:
  assumes "emit_class ns o' nm = Inr out"
  obtains types methods where
    "emit_properties ns (collect_required o') (properties o') = Inr (types, methods)"
    "out = class_definition ns nm types methods"
  using assms by (auto simp: emit_class.simps split: sum.splits)



lemma emit_class_accessor:
  assumes "emit_class configNamespace o' nm = Inr out"
    and "pr \<in> set (properties o')" and "ucl_object_key pr = Some prop_name"
  shows "\<exists>v types.
           visit_schema configNamespace pr
             (SchemaVisitor_new configNamespace (method_name_of prop_name)) = Inr (v, types)
         \<and> sublist (emit_method configNamespace (prop_name \<in> collect_required o') v
                      (method_name_of prop_name) prop_name) out"
proof -
  from assms(1) obtain types methods where
    ep: "emit_properties configNamespace (collect_required o') (properties o') = Inr (types, methods)"
    and out: "out = class_definition configNamespace nm types methods"
    by (rule emit_class_Inr)
  from emit_properties_member[OF ep assms(2) assms(3)] obtain v t where
    v: "visit_schema configNamespace pr
          (SchemaVisitor_new configNamespace (method_name_of prop_name)) = Inr (v, t)"
    and s: "sublist (property_methods configNamespace (collect_required o') pr prop_name v) methods"
    by blast
  have "sublist (emit_method configNamespace (prop_name \<in> collect_required o') v
                   (method_name_of prop_name) prop_name)
                (property_methods configNamespace (collect_required o') pr prop_name v)"
    unfolding property_methods_def by (rule sublist_appendI)
  with s have "sublist (emit_method configNamespace (prop_name \<in> collect_required o') v
                   (method_name_of prop_name) prop_name) out"
    unfolding out using sublist_class_definition(1) sublist_trans' by blast
  with v show ?thesis by blast
qed

lemma emit_method_shape:
  "emit_method configNamespace isRequired v method_name prop_name
     = (if isRequired then return_type v else ''std::optional<'' @ return_type v @ ''>'')
       @ '' '' @ method_name @ ''() const '' @ lifetimeAttribute v @ '' {return ''
       @ (if isRequired then adaptorNamespace v @ adaptor v
          else configNamespace @ ''::make_optional<'' @ adaptorNamespace v @ adaptor v
               @ '', '' @ return_type v @ ''>'')
       @ ''(obj[\"'' @ prop_name @ ''\"]);}''"
  by (simp add: emit_method_def)

text \<open>
  The declared result of an accessor. In the text of a class, the accessor of a required
  property is declared with the resolved type and applies the adaptor to the looked-up
  node; the accessor of any other property is declared with \<^verbatim>\<open>std::optional\<close> of the
  resolved type and goes through \<^verbatim>\<open>make_optional\<close>.
\<close>

lemma accessor_declared_result:
  assumes "emit_class configNamespace o' nm = Inr out"
    and "prop \<in> set (properties o')" and "ucl_object_key prop = Some prop_name"
  shows "\<exists>v types.
           visit_schema configNamespace prop
             (SchemaVisitor_new configNamespace (method_name_of prop_name)) = Inr (v, types)
         \<and> sublist
             ((if prop_name \<in> collect_required o' then return_type v
               else ''std::optional<'' @ return_type v @ ''>'')
              @ '' '' @ method_name_of prop_name @ ''() const '' @ lifetimeAttribute v
              @ '' {return ''
              @ (if prop_name \<in> collect_required o' then adaptorNamespace v @ adaptor v
                 else configNamespace @ ''::make_optional<'' @ adaptorNamespace v @ adaptor v
                      @ '', '' @ return_type v @ ''>'')
              @ ''(obj[\"'' @ prop_name @ ''\"]);}'')
             out"
proof -
  from emit_class_accessor[OF assms] obtain v types where
    v: "visit_schema configNamespace prop
          (SchemaVisitor_new configNamespace (method_name_of prop_name)) = Inr (v, types)"
    and s: "sublist (emit_method configNamespace (prop_name \<in> collect_required o') v
                      (method_name_of prop_name) prop_name) out"
    by blast
  from s have "sublist
             ((if prop_name \<in> collect_required o' then return_type v
               else ''std::optional<'' @ return_type v @ ''>'')
              @ '' '' @ method_name_of prop_name @ ''() const '' @ lifetimeAttribute v
              @ '' {return ''
              @ (if prop_name \<in> collect_required o' then adaptorNamespace v @ adaptor v
                 else configNamespace @ ''::make_optional<'' @ adaptorNamespace v @ adaptor v
                      @ '', '' @ return_type v @ ''>'')
              @ ''(obj[\"'' @ prop_name @ ''\"]);}'')
             out"
    by (simp only: emit_method_shape)
  with v show ?thesis by blast
qed

lemma accessor_declared_result_examples:
  "sublist
     (''std::string_view s() const CONFIG_LIFETIME_BOUND {return ''
      @ ''::config::detail::StringViewAdaptor(obj[\"s\"]);}'')
     (projr (emit_class ''::config::detail::''
        (Some (Ucl None (UCL_OBJECT
           [Ucl (Some ''properties'') (UCL_OBJECT
              [Ucl (Some ''s'') (UCL_OBJECT [Ucl (Some ''type'') (UCL_STRING ''string'')]),
               Ucl (Some ''t'') (UCL_OBJECT [Ucl (Some ''type'') (UCL_STRING ''string'')])]),
            Ucl (Some ''required'') (UCL_ARRAY [Ucl None (UCL_STRING ''s'')])])))
        ''Config''))
   \<and> sublist
     (''std::optional<std::string_view> t() const CONFIG_LIFETIME_BOUND {return ''
      @ ''::config::detail::::make_optional<::config::detail::StringViewAdaptor, ''
      @ ''std::string_view>(obj[\"t\"]);}'')
     (projr (emit_class ''::config::detail::''
        (Some (Ucl None (UCL_OBJECT
           [Ucl (Some ''properties'') (UCL_OBJECT
              [Ucl (Some ''s'') (UCL_OBJECT [Ucl (Some ''type'') (UCL_STRING ''string'')]),
               Ucl (Some ''t'') (UCL_OBJECT [Ucl (Some ''type'') (UCL_STRING ''string'')])]),
            Ucl (Some ''required'') (UCL_ARRAY [Ucl None (UCL_STRING ''s'')])])))
        ''Config''))"
proof -
  let ?s = "Ucl (Some ''s'') (UCL_OBJECT [Ucl (Some ''type'') (UCL_STRING ''string'')])"
  let ?t = "Ucl (Some ''t'') (UCL_OBJECT [Ucl (Some ''type'') (UCL_STRING ''string'')])"
  let ?o = "Some (Ucl None (UCL_OBJECT
           [Ucl (Some ''properties'') (UCL_OBJECT [?s, ?t]),
            Ucl (Some ''required'') (UCL_ARRAY [Ucl None (UCL_STRING ''s'')])]))"
  let ?ns = "''::config::detail::''"
  have h: "emit_class ?ns ?o ''Config'' = Inr (projr (emit_class ?ns ?o ''Config''))"
    by code_simp
  have ps: "Some ?s \<in> set (properties ?o)" and pt: "Some ?t \<in> set (properties ?o)"
    by code_simp+
  have ks: "ucl_object_key (Some ?s) = Some ''s''" and kt: "ucl_object_key (Some ?t) = Some ''t''"
    by (simp_all add: ucl_object_key_def)
  have vs: "visit_schema ?ns (Some ?s) (SchemaVisitor_new ?ns (method_name_of ''s''))
            = Inr (visit_String (SchemaVisitor_new ?ns ''s''), [])"
    and vt: "visit_schema ?ns (Some ?t) (SchemaVisitor_new ?ns (method_name_of ''t''))
            = Inr (visit_String (SchemaVisitor_new ?ns ''t''), [])"
    by code_simp+
  have rs: "''s'' \<in> collect_required ?o" and rt: "''t'' \<notin> collect_required ?o"
    by code_simp+
  have ms: "method_name_of ''s'' = ''s''" and mt: "method_name_of ''t'' = ''t''"
    by code_simp+
  from accessor_declared_result[OF h ps ks] obtain v types where
    va: "visit_schema ?ns (Some ?s) (SchemaVisitor_new ?ns (method_name_of ''s'')) = Inr (v, types)"
    and vb: "sublist
             ((if ''s'' \<in> collect_required ?o then return_type v
               else ''std::optional<'' @ return_type v @ ''>'')
              @ '' '' @ method_name_of ''s'' @ ''() const '' @ lifetimeAttribute v
              @ '' {return ''
              @ (if ''s'' \<in> collect_required ?o then adaptorNamespace v @ adaptor v
                 else ?ns @ ''::make_optional<'' @ adaptorNamespace v @ adaptor v
                      @ '', '' @ return_type v @ ''>'')
              @ ''(obj[\"'' @ ''s'' @ ''\"]);}'')
             (projr (emit_class ?ns ?o ''Config''))"
    by blast
  from va vs have v: "v = visit_String (SchemaVisitor_new ?ns ''s'')" by simp
  have "(if ''s'' \<in> collect_required ?o then return_type v
               else ''std::optional<'' @ return_type v @ ''>'')
              @ '' '' @ method_name_of ''s'' @ ''() const '' @ lifetimeAttribute v
              @ '' {return ''
              @ (if ''s'' \<in> collect_required ?o then adaptorNamespace v @ adaptor v
                 else ?ns @ ''::make_optional<'' @ adaptorNamespace v @ adaptor v
                      @ '', '' @ return_type v @ ''>'')
              @ ''(obj[\"'' @ ''s'' @ ''\"]);}''
        = ''std::string_view s() const CONFIG_LIFETIME_BOUND {return ''
      @ ''::config::detail::StringViewAdaptor(obj[\"s\"]);}''"
    by (simp add: rs ms v visit_String_def SchemaVisitor_new_def)
  with vb have 1: "sublist
     (''std::string_view s() const CONFIG_LIFETIME_BOUND {return ''
      @ ''::config::detail::StringViewAdaptor(obj[\"s\"]);}'')
     (projr (emit_class ?ns ?o ''Config''))"
    by (simp only:)
  from accessor_declared_result[OF h pt kt] obtain w types' where
    wa: "visit_schema ?ns (Some ?t) (SchemaVisitor_new ?ns (method_name_of ''t'')) = Inr (w, types')"
    and wb: "sublist
             ((if ''t'' \<in> collect_required ?o then return_type w
               else ''std::optional<'' @ return_type w @ ''>'')
              @ '' '' @ method_name_of ''t'' @ ''() const '' @ lifetimeAttribute w
              @ '' {return ''
              @ (if ''t'' \<in> collect_required ?o then adaptorNamespace w @ adaptor w
                 else ?ns @ ''::make_optional<'' @ adaptorNamespace w @ adaptor w
                      @ '', '' @ return_type w @ ''>'')
              @ ''(obj[\"'' @ ''t'' @ ''\"]);}'')
             (projr (emit_class ?ns ?o ''Config''))"
    by blast
  from wa vt have w: "w = visit_String (SchemaVisitor_new ?ns ''t'')" by simp
  have "(if ''t'' \<in> collect_required ?o then return_type w
               else ''std::optional<'' @ return_type w @ ''>'')
              @ '' '' @ method_name_of ''t'' @ ''() const '' @ lifetimeAttribute w
              @ '' {return ''
              @ (if ''t'' \<in> collect_required ?o then adaptorNamespace w @ adaptor w
                 else ?ns @ ''::make_optional<'' @ adaptorNamespace w @ adaptor w
                      @ '', '' @ return_type w @ ''>'')
              @ ''(obj[\"'' @ ''t'' @ ''\"]);}''
        = ''std::optional<std::string_view> t() const CONFIG_LIFETIME_BOUND {return ''
      @ ''::config::detail::::make_optional<::config::detail::StringViewAdaptor, ''
      @ ''std::string_view>(obj[\"t\"]);}''"
    by (simp add: rt mt w visit_String_def SchemaVisitor_new_def)
  with wb have 2: "sublist
     (''std::optional<std::string_view> t() const CONFIG_LIFETIME_BOUND {return ''
      @ ''::config::detail::::make_optional<::config::detail::StringViewAdaptor, ''
      @ ''std::string_view>(obj[\"t\"]);}'')
     (projr (emit_class ?ns ?o ''Config''))"
    by (simp only:)
  from 1 2 show ?thesis by blast
qed

text \<open>
  What the accessor of a property that is not required returns when the resolved adaptor
  is one of the integer adaptors: nothing when the key is absent from the document, and
  otherwise the document's integer cast to the resolved type, which is that integer when
  it lies within the range of the type.
\<close>

lemma static_cast_to_in_range:
  "limits_min NumberType \<le> x \<Longrightarrow> x \<le> limits_max NumberType
   \<Longrightarrow> static_cast_to NumberType x = x"
  by (cases NumberType) (simp_all add: static_cast_to_def)

lemma static_cast_to_range:
  "limits_min NumberType \<le> static_cast_to NumberType x
   \<and> static_cast_to NumberType x \<le> limits_max NumberType"
  by (cases NumberType) (simp_all add: static_cast_to_def)

lemma make_optional_NumberAdaptor:
  "make_optional (NumberAdaptor NumberType) (ucl_object_lookup document prop_name)
   = (case ucl_object_lookup document prop_name of
        None \<Rightarrow> None
      | Some val \<Rightarrow>
          Some (case ucl_object_toint (Some val) of
                  Inl err \<Rightarrow> Inl err
                | Inr x \<Rightarrow> Inr (static_cast_to NumberType x)))"
  by (simp add: make_optional_def NumberAdaptor_def split: option.splits)

text \<open>
  Claim C2, on the declared result of an accessor and the value it returns. The integer
  property \<open>p\<close> with minimum \<open>- 2 ^ 40\<close> and maximum \<open>2 ^ 40\<close>, not required, is declared
  with \<^verbatim>\<open>std::optional<uint64_t>\<close> and read through \<^verbatim>\<open>UInt64Adaptor\<close>, the type that
  the probe of \<^verbatim>\<open>uint64_t\<close> selects for every interval. In a document where \<open>p\<close> is
  \<open>- 5\<close>, a value within the bounds, the optional is populated with \<open>2 ^ 64 - 5\<close>, where
  the claim gives the document's value; in a document without \<open>p\<close> it is empty.
\<close>

theorem optional_accessor_negative_value:
  \<open>emit_class ''::config::detail::''
     (Some (Ucl None (UCL_OBJECT
        [Ucl (Some ''type'') (UCL_STRING ''object''),
         Ucl (Some ''properties'') (UCL_OBJECT
           [Ucl (Some ''p'') (UCL_OBJECT
              [Ucl (Some ''type'') (UCL_STRING ''integer''),
               Ucl (Some ''minimum'') (UCL_INT (- 1099511627776)),
               Ucl (Some ''maximum'') (UCL_INT 1099511627776)])])])))
     ''Config''
   = Inr (''class Config{::config::detail::UCLPtr obj; public:\<newline>''
          @ ''Config(const ucl_object_t *o) : obj(o) {}\<newline>''
          @ ''std::optional<uint64_t> p() const  {return ::config::detail::::make_optional<''
          @ ''::config::detail::UInt64Adaptor, uint64_t>(obj["p"]);}\<newline>\<newline>''
          @ ''};\<newline>'')
   \<and> visit_schema ''::config::detail::''
       (Some (Ucl (Some ''p'') (UCL_OBJECT
          [Ucl (Some ''type'') (UCL_STRING ''integer''),
           Ucl (Some ''minimum'') (UCL_INT (- 1099511627776)),
           Ucl (Some ''maximum'') (UCL_INT 1099511627776)])))
       (SchemaVisitor_new ''::config::detail::'' (method_name_of ''p''))
     = Inr ((SchemaVisitor_new ''::config::detail::'' ''p'')
              \<lparr>return_type := ''uint64_t'', adaptor := ''UInt64Adaptor''\<rparr>, [])
   \<and> map_of NumberAdaptors ''UInt64Adaptor'' = Some UInt64
   \<and> ucl_object_toint
       (ucl_object_lookup (Some (Ucl None (UCL_OBJECT [Ucl (Some ''p'') (UCL_INT (- 5))]))) ''p'')
     = Inr (- 5)
   \<and> - 1099511627776 \<le> (- 5 :: int) \<and> (- 5 :: int) \<le> 1099511627776
   \<and> make_optional (NumberAdaptor UInt64)
       (ucl_object_lookup (Some (Ucl None (UCL_OBJECT [Ucl (Some ''p'') (UCL_INT (- 5))]))) ''p'')
     = Some (Inr 18446744073709551611)
   \<and> make_optional (NumberAdaptor UInt64)
       (ucl_object_lookup (Some (Ucl None (UCL_OBJECT []))) ''p'')
     = None\<close>
  by code_simp

lemma replace_char_absent: "old \<notin> set s \<Longrightarrow> replace_char old new s = s"
  by (induction s) (auto simp: replace_char_def)

text \<open>
  The accessor is named by the property's key with every \<open>-\<close> replaced by \<open>_\<close> and every
  other character kept, and in the text of the class the accessor of that name ends with
  the lookup of the key as it is in the schema. The property \<open>max-items\<close> gives the
  accessor \<open>max_items\<close> that reads \<open>max-items\<close>.
\<close>

lemma accessor_name_sanitized:
  assumes "emit_class configNamespace o' nm = Inr out"
    and "prop \<in> set (properties o')" and "ucl_object_key prop = Some prop_name"
  shows "method_name_of prop_name = map (\<lambda>c. if c = CHR ''-'' then CHR ''_'' else c) prop_name
   \<and> CHR ''-'' \<notin> set (method_name_of prop_name)
   \<and> (\<exists>declared conversion.
         sublist (declared @ '' '' @ method_name_of prop_name @ ''() const '' @ conversion
                  @ ''(obj[\"'' @ prop_name @ ''\"]);}'') out
         \<and> (\<exists>v types.
               visit_schema configNamespace prop
                 (SchemaVisitor_new configNamespace (method_name_of prop_name)) = Inr (v, types)
               \<and> declared = (if prop_name \<in> collect_required o' then return_type v
                             else ''std::optional<'' @ return_type v @ ''>'')
               \<and> conversion = lifetimeAttribute v @ '' {return ''
                    @ (if prop_name \<in> collect_required o' then adaptorNamespace v @ adaptor v
                       else configNamespace @ ''::make_optional<'' @ adaptorNamespace v
                            @ adaptor v @ '', '' @ return_type v @ ''>'')))"
proof -
  have 1: "method_name_of prop_name = map (\<lambda>c. if c = CHR ''-'' then CHR ''_'' else c) prop_name"
    using replace_char_absent[of "CHR ''-''" prop_name "CHR ''_''"]
    by (auto simp: method_name_of_def replace_char_def)
  have 2: "CHR ''-'' \<notin> set (method_name_of prop_name)"
    unfolding 1 by auto
  from emit_class_accessor[OF assms] obtain v types where
    v: "visit_schema configNamespace prop
          (SchemaVisitor_new configNamespace (method_name_of prop_name)) = Inr (v, types)"
    and s: "sublist (emit_method configNamespace (prop_name \<in> collect_required o') v
                      (method_name_of prop_name) prop_name) out"
    by blast
  let ?declared = "if prop_name \<in> collect_required o' then return_type v
                   else ''std::optional<'' @ return_type v @ ''>''"
  let ?conversion = "lifetimeAttribute v @ '' {return ''
                    @ (if prop_name \<in> collect_required o' then adaptorNamespace v @ adaptor v
                       else configNamespace @ ''::make_optional<'' @ adaptorNamespace v
                            @ adaptor v @ '', '' @ return_type v @ ''>'')"
  have "emit_method configNamespace (prop_name \<in> collect_required o') v
          (method_name_of prop_name) prop_name
        = ?declared @ '' '' @ method_name_of prop_name @ ''() const '' @ ?conversion
          @ ''(obj[\"'' @ prop_name @ ''\"]);}''"
    by (simp add: emit_method_def)
  with s have "sublist (?declared @ '' '' @ method_name_of prop_name @ ''() const '' @ ?conversion
                  @ ''(obj[\"'' @ prop_name @ ''\"]);}'') out"
    by simp
  with v 1 2 show ?thesis by blast
qed

lemma accessor_name_sanitized_examples:
  "method_name_of ''max-items'' = ''max_items''
   \<and> sublist
     (''uint8_t max_items() const  {return ::config::detail::UInt8Adaptor(obj[\"max-items\"]);}'')
     (projr (emit_class ''::config::detail::''
        (Some (Ucl None (UCL_OBJECT
           [Ucl (Some ''properties'') (UCL_OBJECT
              [Ucl (Some ''max-items'') (UCL_OBJECT
                 [Ucl (Some ''type'') (UCL_STRING ''integer''),
                  Ucl (Some ''minimum'') (UCL_INT 0),
                  Ucl (Some ''maximum'') (UCL_INT 255)])]),
            Ucl (Some ''required'') (UCL_ARRAY [Ucl None (UCL_STRING ''max-items'')])])))
        ''Config''))"
proof -
  let ?p = "Ucl (Some ''max-items'') (UCL_OBJECT
                 [Ucl (Some ''type'') (UCL_STRING ''integer''),
                  Ucl (Some ''minimum'') (UCL_INT 0),
                  Ucl (Some ''maximum'') (UCL_INT 255)])"
  let ?o = "Some (Ucl None (UCL_OBJECT
           [Ucl (Some ''properties'') (UCL_OBJECT [?p]),
            Ucl (Some ''required'') (UCL_ARRAY [Ucl None (UCL_STRING ''max-items'')])]))"
  let ?ns = "''::config::detail::''"
  have h: "emit_class ?ns ?o ''Config'' = Inr (projr (emit_class ?ns ?o ''Config''))"
    by code_simp
  have p: "Some ?p \<in> set (properties ?o)" by code_simp
  have k: "ucl_object_key (Some ?p) = Some ''max-items''" by (simp add: ucl_object_key_def)
  have m: "method_name_of ''max-items'' = ''max_items''" by code_simp
  have v: "visit_schema ?ns (Some ?p) (SchemaVisitor_new ?ns ''max_items'')
            = Inr ((SchemaVisitor_new ?ns ''max_items'')
                     \<lparr>return_type := ''uint8_t'', adaptor := ''UInt8Adaptor''\<rparr>, [])"
    by code_simp
  have r: "''max-items'' \<in> collect_required ?o" by code_simp
  from accessor_name_sanitized[OF h p k] obtain declared conversion w types where
    sub: "sublist (declared @ '' '' @ method_name_of ''max-items'' @ ''() const '' @ conversion
                  @ ''(obj[\"'' @ ''max-items'' @ ''\"]);}'') (projr (emit_class ?ns ?o ''Config''))"
    and wv: "visit_schema ?ns (Some ?p) (SchemaVisitor_new ?ns (method_name_of ''max-items''))
             = Inr (w, types)"
    and d: "declared = (if ''max-items'' \<in> collect_required ?o then return_type w
                             else ''std::optional<'' @ return_type w @ ''>'')"
    and c: "conversion = lifetimeAttribute w @ '' {return ''
                    @ (if ''max-items'' \<in> collect_required ?o then adaptorNamespace w @ adaptor w
                       else ?ns @ ''::make_optional<'' @ adaptorNamespace w
                            @ adaptor w @ '', '' @ return_type w @ ''>'')"
    by blast
  from wv v have w: "w = (SchemaVisitor_new ?ns ''max_items'')
                     \<lparr>return_type := ''uint8_t'', adaptor := ''UInt8Adaptor''\<rparr>"
    by (simp add: m)
  have "declared @ '' '' @ method_name_of ''max-items'' @ ''() const '' @ conversion
                  @ ''(obj[\"'' @ ''max-items'' @ ''\"]);}''
        = ''uint8_t max_items() const  {return ::config::detail::UInt8Adaptor(obj[\"max-items\"]);}''"
    by (simp add: d c w r m SchemaVisitor_new_def)
  with sub have "sublist
     (''uint8_t max_items() const  {return ::config::detail::UInt8Adaptor(obj[\"max-items\"]);}'')
     (projr (emit_class ?ns ?o ''Config''))"
    by (simp only:)
  with m show ?thesis by blast
qed

text \<open>
  Claim C8, on the name of an accessor. The only character that the emitter replaces is
  \<open>-\<close> (the source notes that a proper match is still to be done). The key \<open>a.b c\<close> is
  kept as it is, and the key \<open>2-fast\<close> becomes \<open>2_fast\<close>: neither name is an identifier,
  and the class is written with an accessor of that name. The key is written into the
  lookup as it is, so a key with a double quote ends the string literal of the lookup
  early. The key \<open>max-items\<close> gives the identifier \<open>max_items\<close>.
\<close>

theorem accessor_name_not_identifier:
  \<open>method_name_of ''a.b c'' = ''a.b c''
   \<and> \<not> is_identifier (method_name_of ''a.b c'')
   \<and> method_name_of ''2-fast'' = ''2_fast''
   \<and> \<not> is_identifier (method_name_of ''2-fast'')
   \<and> method_name_of ''max-items'' = ''max_items''
   \<and> is_identifier (method_name_of ''max-items'')
   \<and> emit_class ''::config::detail::''
       (Some (Ucl None (UCL_OBJECT
          [Ucl (Some ''type'') (UCL_STRING ''object''),
           Ucl (Some ''properties'') (UCL_OBJECT
             [Ucl (Some ''a.b c'') (UCL_OBJECT [Ucl (Some ''type'') (UCL_STRING ''boolean'')])])])))
       ''Config''
     = Inr (''class Config{::config::detail::UCLPtr obj; public:\<newline>''
            @ ''Config(const ucl_object_t *o) : obj(o) {}\<newline>''
            @ ''std::optional<bool> a.b c() const  {return ::config::detail::::make_optional<''
            @ ''::config::detail::BoolAdaptor, bool>(obj["a.b c"]);}\<newline>\<newline>''
            @ ''};\<newline>'')
   \<and> emit_method ''::config::detail::'' True
       (visit_Boolean (SchemaVisitor_new ''::config::detail::'' (method_name_of ''a"b'')))
       (method_name_of ''a"b'') ''a"b''
     = ''bool a"b() const  {return ::config::detail::BoolAdaptor(obj["a"b"]);}''\<close>
  by code_simp

lemma emit_class_prefix:
  "emit_class ns ob nm = Inr cls \<Longrightarrow> prefix (''class '' @ nm @ ''{'') cls"
  by (erule emit_class_Inr) (simp add: class_definition_def)

lemma visit_schema_Object:
  assumes "dispatch p = Some (Object ob)" and "visit_schema ns p v = Inr (v', t)"
  shows "emit_class ns ob (name v @ ''Class'') = Inr t \<and> return_type v' = name v @ ''Class''"
  using assms
  by (auto simp: visit_schema.simps Object_className_def visit_Object_def split: sum.splits)

lemma visit_schema_Array_Object:
  assumes "dispatch p = Some (Array a)" and "dispatch (items a) = Some (Object ob)"
    and "visit_schema ns p v = Inr (v', t)"
  shows "emit_class ns ob (name v @ ''ItemClass'') = Inr t
         \<and> return_type v' = ns @ ''::Range<'' @ name v @ ''ItemClass'' @ '', ''
                              @ name v @ ''ItemClass'' @ '', true>''"
proof -
  from assms(1,3) obtain item where
    item: "visit_schema ns (items a) (SchemaVisitor_new ns (name v @ ''Item'')) = Inr (item, t)"
    and v': "v' = visit_Array ns item v"
    by (auto simp: visit_schema.simps[of ns p] Array_itemName_def split: sum.splits)
  from visit_schema_Object[OF assms(2) item]
  have "emit_class ns ob (name v @ ''ItemClass'') = Inr t"
    and r: "return_type item = name v @ ''ItemClass''"
    by (simp_all add: SchemaVisitor_new_def)
  moreover have "adaptor item = name v @ ''ItemClass''"
    using assms(2) item
    by (auto simp: visit_schema.simps[of ns "items a"] Object_className_def visit_Object_def
          SchemaVisitor_new_def split: sum.splits)
  ultimately show ?thesis by (simp add: v' visit_Array_def Array_className_def)
qed

text \<open>
  Claim C6, on the names and the order of nested types. The text of a class is its
  opening, then the nested types, then the accessors, then its closing: the part of the
  nested types is the concatenation, in the order of the properties, of what the visit of
  each property writes, and the part of the accessors is the concatenation, in the same
  order, of the accessors; so the nested types of every property lie in the first part and
  its accessor in the second. The nested type of an object property is named by the
  accessor's name followed by \<open>Class\<close>. The items of an array property are resolved under
  the accessor's name followed by \<open>Item\<close>, so an object as items gives a type whose name
  ends in \<open>ItemClass\<close>.
\<close>

theorem nested_type_names:
  assumes "emit_class configNamespace o' nm = Inr out"
  shows "\<exists>types methods parts.
           emit_properties configNamespace (collect_required o') (properties o')
             = Inr (types, methods)
         \<and> out = ''class '' @ nm @ ''{'' @ configNamespace @ ''UCLPtr obj; public:\<newline>''
                 @ nm @ ''(const ucl_object_t *o) : obj(o) {}\<newline>''
                 @ types @ methods @ ''};\<newline>''
         \<and> list_all2
              (\<lambda>prop (t, m). \<exists>P v.
                  ucl_object_key prop = Some P
                  \<and> visit_schema configNamespace prop
                        (SchemaVisitor_new configNamespace (method_name_of P)) = Inr (v, t)
                  \<and> m = property_methods configNamespace (collect_required o') prop P v)
              (properties o') parts
         \<and> types = concat (map fst parts)
         \<and> methods = concat (map snd parts)
         \<and> (\<forall>prop P.
               prop \<in> set (properties o') \<and> ucl_object_key prop = Some P
               \<longrightarrow> (\<exists>v t. visit_schema configNamespace prop
                               (SchemaVisitor_new configNamespace (method_name_of P)) = Inr (v, t)
                         \<and> sublist t types
                         \<and> sublist (emit_method configNamespace (P \<in> collect_required o') v
                                      (method_name_of P) P) methods))
         \<and> (\<forall>prop P ob.
               prop \<in> set (properties o') \<and> ucl_object_key prop = Some P
               \<and> dispatch prop = Some (Object ob)
               \<longrightarrow> (\<exists>cls. emit_class configNamespace ob (method_name_of P @ ''Class'') = Inr cls
                         \<and> prefix (''class '' @ method_name_of P @ ''Class{'') cls
                         \<and> sublist cls types))
         \<and> (\<forall>prop P a ob.
               prop \<in> set (properties o') \<and> ucl_object_key prop = Some P
               \<and> dispatch prop = Some (Array a) \<and> dispatch (items a) = Some (Object ob)
               \<longrightarrow> (\<exists>cls. emit_class configNamespace ob (method_name_of P @ ''ItemClass'') = Inr cls
                         \<and> prefix (''class '' @ method_name_of P @ ''ItemClass{'') cls
                         \<and> sublist cls types))"
proof -
  from assms obtain types methods where
    ep: "emit_properties configNamespace (collect_required o') (properties o') = Inr (types, methods)"
    and out: "out = class_definition configNamespace nm types methods"
    by (rule emit_class_Inr)
  from emit_properties_streams[OF ep] obtain parts where
    parts: "list_all2
              (\<lambda>prop (t, m). \<exists>P v.
                  ucl_object_key prop = Some P
                  \<and> visit_schema configNamespace prop
                        (SchemaVisitor_new configNamespace (method_name_of P)) = Inr (v, t)
                  \<and> m = property_methods configNamespace (collect_required o') prop P v)
              (properties o') parts"
    and ty: "types = concat (map fst parts)"
    and me: "methods = concat (map snd parts)"
    by blast
  have acc: "\<exists>v t. visit_schema configNamespace pr
                      (SchemaVisitor_new configNamespace (method_name_of P)) = Inr (v, t)
                 \<and> sublist t types
                 \<and> sublist (emit_method configNamespace (P \<in> collect_required o') v
                              (method_name_of P) P) methods"
    if "pr \<in> set (properties o')" "ucl_object_key pr = Some P" for pr P
  proof -
    from emit_properties_member[OF ep that] obtain v t where
      v: "visit_schema configNamespace pr (SchemaVisitor_new configNamespace (method_name_of P)) = Inr (v, t)"
      and m: "sublist (property_methods configNamespace (collect_required o') pr P v) methods"
      and s: "sublist t types" by blast
    have "sublist (emit_method configNamespace (P \<in> collect_required o') v (method_name_of P) P)
            (property_methods configNamespace (collect_required o') pr P v)"
      unfolding property_methods_def by (rule sublist_appendI)
    from this m have "sublist (emit_method configNamespace (P \<in> collect_required o') v
                   (method_name_of P) P) methods"
      by (rule sublist_trans')
    with v s show ?thesis by blast
  qed
  have obj: "\<exists>cls. emit_class configNamespace ob (method_name_of P @ ''Class'') = Inr cls
                 \<and> prefix (''class '' @ method_name_of P @ ''Class{'') cls \<and> sublist cls types"
    if "pr \<in> set (properties o')" "ucl_object_key pr = Some P" "dispatch pr = Some (Object ob)"
    for pr P ob
  proof -
    from emit_properties_member[OF ep that(1,2)] obtain v t where
      v: "visit_schema configNamespace pr (SchemaVisitor_new configNamespace (method_name_of P)) = Inr (v, t)"
      and s: "sublist t types" by blast
    from visit_schema_Object[OF that(3) v]
    have e: "emit_class configNamespace ob (method_name_of P @ ''Class'') = Inr t"
      by (simp add: SchemaVisitor_new_def)
    from emit_class_prefix[OF e] e s show ?thesis by auto
  qed
  have arr: "\<exists>cls. emit_class configNamespace ob (method_name_of P @ ''ItemClass'') = Inr cls
                 \<and> prefix (''class '' @ method_name_of P @ ''ItemClass{'') cls \<and> sublist cls types"
    if "pr \<in> set (properties o')" "ucl_object_key pr = Some P"
       "dispatch pr = Some (Array a)" "dispatch (items a) = Some (Object ob)"
    for pr P a ob
  proof -
    from emit_properties_member[OF ep that(1,2)] obtain v t where
      v: "visit_schema configNamespace pr (SchemaVisitor_new configNamespace (method_name_of P)) = Inr (v, t)"
      and s: "sublist t types" by blast
    from visit_schema_Array_Object[OF that(3,4) v]
    have e: "emit_class configNamespace ob (method_name_of P @ ''ItemClass'') = Inr t"
      by (simp add: SchemaVisitor_new_def)
    from emit_class_prefix[OF e] e s show ?thesis by auto
  qed
  have "out = ''class '' @ nm @ ''{'' @ configNamespace @ ''UCLPtr obj; public:\<newline>''
                 @ nm @ ''(const ucl_object_t *o) : obj(o) {}\<newline>''
                 @ types @ methods @ ''};\<newline>''"
    by (simp add: out class_definition_def)
  with ep parts ty me acc obj arr show ?thesis by blast
qed

theorem nested_type_names_witness:
  "\<exists>types methods.
     emit_class ''::config::detail::''
       (Some (Ucl None (UCL_OBJECT
          [Ucl (Some ''properties'') (UCL_OBJECT
             [Ucl (Some ''o'') (UCL_OBJECT [Ucl (Some ''type'') (UCL_STRING ''object'')]),
              Ucl (Some ''a'') (UCL_OBJECT
                [Ucl (Some ''type'') (UCL_STRING ''array''),
                 Ucl (Some ''items'') (UCL_OBJECT [Ucl (Some ''type'') (UCL_STRING ''object'')])])])])))
       ''Config''
     = Inr (''class Config{::config::detail::UCLPtr obj; public:\<newline>''
            @ ''Config(const ucl_object_t *o) : obj(o) {}\<newline>''
            @ types @ methods @ ''};\<newline>'')
   \<and> (\<exists>cls. emit_class ''::config::detail::''
                (Some (Ucl (Some ''o'') (UCL_OBJECT [Ucl (Some ''type'') (UCL_STRING ''object'')])))
                ''oClass'' = Inr cls
            \<and> prefix ''class oClass{'' cls \<and> sublist cls types)
   \<and> (\<exists>cls. emit_class ''::config::detail::''
                (Some (Ucl (Some ''items'') (UCL_OBJECT [Ucl (Some ''type'') (UCL_STRING ''object'')])))
                ''aItemClass'' = Inr cls
            \<and> prefix ''class aItemClass{'' cls \<and> sublist cls types)
   \<and> sublist (''std::optional<oClass> o() const ''
              @ '' {return ::config::detail::::make_optional<oClass, oClass>(obj[\"o\"]);}'')
       methods
   \<and> sublist (''std::optional<::config::detail::::Range<aItemClass, aItemClass, true>> a() const ''
              @ '' {return ::config::detail::::make_optional<''
              @ ''::config::detail::::Range<aItemClass, aItemClass, true>, ''
              @ ''::config::detail::::Range<aItemClass, aItemClass, true>>(obj[\"a\"]);}'')
       methods"
proof -
  let ?o = "Ucl (Some ''o'') (UCL_OBJECT [Ucl (Some ''type'') (UCL_STRING ''object'')])"
  let ?i = "Ucl (Some ''items'') (UCL_OBJECT [Ucl (Some ''type'') (UCL_STRING ''object'')])"
  let ?a = "Ucl (Some ''a'') (UCL_OBJECT [Ucl (Some ''type'') (UCL_STRING ''array''), ?i])"
  let ?s = "Some (Ucl None (UCL_OBJECT [Ucl (Some ''properties'') (UCL_OBJECT [?o, ?a])]))"
  let ?ns = "''::config::detail::''"
  let ?mo = "''std::optional<oClass> o() const ''
              @ '' {return ::config::detail::::make_optional<oClass, oClass>(obj[\"o\"]);}''"
  let ?ma = "''std::optional<::config::detail::::Range<aItemClass, aItemClass, true>> a() const ''
              @ '' {return ::config::detail::::make_optional<''
              @ ''::config::detail::::Range<aItemClass, aItemClass, true>, ''
              @ ''::config::detail::::Range<aItemClass, aItemClass, true>>(obj[\"a\"]);}''"
  have h: "emit_class ?ns ?s ''Config'' = Inr (projr (emit_class ?ns ?s ''Config''))"
    by code_simp
  from nested_type_names[OF h] obtain types methods where
    out: "projr (emit_class ?ns ?s ''Config'')
          = ''class '' @ ''Config'' @ ''{'' @ ?ns @ ''UCLPtr obj; public:\<newline>''
                 @ ''Config'' @ ''(const ucl_object_t *o) : obj(o) {}\<newline>''
                 @ types @ methods @ ''};\<newline>''"
    and ac: "\<And>pr P. pr \<in> set (properties ?s) \<and> ucl_object_key pr = Some P
               \<Longrightarrow> (\<exists>v t. visit_schema ?ns pr (SchemaVisitor_new ?ns (method_name_of P)) = Inr (v, t)
                         \<and> sublist t types
                         \<and> sublist (emit_method ?ns (P \<in> collect_required ?s) v
                                      (method_name_of P) P) methods)"
    and ob: "\<And>pr P ob. pr \<in> set (properties ?s) \<and> ucl_object_key pr = Some P
               \<and> dispatch pr = Some (Object ob)
               \<Longrightarrow> (\<exists>cls. emit_class ?ns ob (method_name_of P @ ''Class'') = Inr cls
                         \<and> prefix (''class '' @ method_name_of P @ ''Class{'') cls
                         \<and> sublist cls types)"
    and ar: "\<And>pr P a ob. pr \<in> set (properties ?s) \<and> ucl_object_key pr = Some P
               \<and> dispatch pr = Some (Array a) \<and> dispatch (items a) = Some (Object ob)
               \<Longrightarrow> (\<exists>cls. emit_class ?ns ob (method_name_of P @ ''ItemClass'') = Inr cls
                         \<and> prefix (''class '' @ method_name_of P @ ''ItemClass{'') cls
                         \<and> sublist cls types)"
    by blast
  have po: "Some ?o \<in> set (properties ?s) \<and> ucl_object_key (Some ?o) = Some ''o''
            \<and> dispatch (Some ?o) = Some (Object (Some ?o))"
    by code_simp
  have pa: "Some ?a \<in> set (properties ?s) \<and> ucl_object_key (Some ?a) = Some ''a''
            \<and> dispatch (Some ?a) = Some (Array (Some ?a))
            \<and> dispatch (items (Some ?a)) = Some (Object (Some ?i))"
    by code_simp
  have mo: "method_name_of ''o'' = ''o''" and ma: "method_name_of ''a'' = ''a''"
    by code_simp+
  from ob[OF po] have 1: "\<exists>cls. emit_class ?ns (Some ?o) ''oClass'' = Inr cls
            \<and> prefix ''class oClass{'' cls \<and> sublist cls types"
    by (simp add: mo)
  from ar[OF pa] have 2: "\<exists>cls. emit_class ?ns (Some ?i) ''aItemClass'' = Inr cls
            \<and> prefix ''class aItemClass{'' cls \<and> sublist cls types"
    by (simp add: ma)
  from h out have 3: "emit_class ?ns ?s ''Config''
     = Inr (''class Config{::config::detail::UCLPtr obj; public:\<newline>''
            @ ''Config(const ucl_object_t *o) : obj(o) {}\<newline>''
            @ types @ methods @ ''};\<newline>'')"
    by simp
  have nr: "''o'' \<notin> collect_required ?s" "''a'' \<notin> collect_required ?s"
    by code_simp+
  have pok: "Some ?o \<in> set (properties ?s) \<and> ucl_object_key (Some ?o) = Some ''o''"
    and pak: "Some ?a \<in> set (properties ?s) \<and> ucl_object_key (Some ?a) = Some ''a''"
    using po pa by blast+
  from ac[OF pok] obtain v t where
    v: "visit_schema ?ns (Some ?o) (SchemaVisitor_new ?ns (method_name_of ''o'')) = Inr (v, t)"
    and vs: "sublist (emit_method ?ns (''o'' \<in> collect_required ?s) v (method_name_of ''o'') ''o'')
               methods"
    by blast
  from v have v': "v = fst (projr (visit_schema ?ns (Some ?o) (SchemaVisitor_new ?ns ''o'')))"
    by (simp add: mo)
  have "emit_method ?ns False
          (fst (projr (visit_schema ?ns (Some ?o) (SchemaVisitor_new ?ns ''o'')))) ''o'' ''o''
        = ?mo"
    by code_simp
  with vs have 4: "sublist ?mo methods"
    by (simp only: v' mo nr if_False)
  from ac[OF pak] obtain w u where
    w: "visit_schema ?ns (Some ?a) (SchemaVisitor_new ?ns (method_name_of ''a'')) = Inr (w, u)"
    and ws: "sublist (emit_method ?ns (''a'' \<in> collect_required ?s) w (method_name_of ''a'') ''a'')
               methods"
    by blast
  from w have w': "w = fst (projr (visit_schema ?ns (Some ?a) (SchemaVisitor_new ?ns ''a'')))"
    by (simp add: ma)
  have "emit_method ?ns False
          (fst (projr (visit_schema ?ns (Some ?a) (SchemaVisitor_new ?ns ''a'')))) ''a'' ''a''
        = ?ma"
    by code_simp
  with ws have 5: "sublist ?ma methods"
    by (simp only: w' ma nr if_False)
  from 1 2 3 4 5 show ?thesis by blast
qed

text \<open>
  The element type of an array \<open>a\<close> of objects is named \<open>aItemClass\<close>, not \<open>aItem\<close>; next
  to an object property \<open>aItem\<close> the same name is defined twice in one class; and the
  object property \<open>a-b\<close> gives the type \<open>a_bClass\<close>.
\<close>

theorem nested_type_names_counterexample:
  "visit_schema ''::config::detail::''
     (Some (Ucl (Some ''a'') (UCL_OBJECT
        [Ucl (Some ''type'') (UCL_STRING ''array''),
         Ucl (Some ''items'') (UCL_OBJECT [Ucl (Some ''type'') (UCL_STRING ''object'')])])))
     (SchemaVisitor_new ''::config::detail::'' ''a'')
   = Inr ((SchemaVisitor_new ''::config::detail::'' ''a'')
            \<lparr>className := ''::config::detail::::Range<aItemClass, aItemClass, true>'',
             return_type := ''::config::detail::::Range<aItemClass, aItemClass, true>'',
             adaptor := ''::config::detail::::Range<aItemClass, aItemClass, true>'',
             adaptorNamespace := []\<rparr>,
          ''class aItemClass{::config::detail::UCLPtr obj; public:\<newline>''
          @ ''aItemClass(const ucl_object_t *o) : obj(o) {}\<newline>'' @ ''};\<newline>'')
   \<and> emit_properties ''::config::detail::'' {}
       [Some (Ucl (Some ''a'') (UCL_OBJECT
          [Ucl (Some ''type'') (UCL_STRING ''array''),
           Ucl (Some ''items'') (UCL_OBJECT [Ucl (Some ''type'') (UCL_STRING ''object'')])])),
        Some (Ucl (Some ''aItem'') (UCL_OBJECT [Ucl (Some ''type'') (UCL_STRING ''object'')]))]
     = Inr (''class aItemClass{::config::detail::UCLPtr obj; public:\<newline>''
            @ ''aItemClass(const ucl_object_t *o) : obj(o) {}\<newline>'' @ ''};\<newline>''
            @ ''class aItemClass{::config::detail::UCLPtr obj; public:\<newline>''
            @ ''aItemClass(const ucl_object_t *o) : obj(o) {}\<newline>'' @ ''};\<newline>'',
            ''std::optional<::config::detail::::Range<aItemClass, aItemClass, true>> a() const ''
            @ '' {return ::config::detail::::make_optional<''
            @ ''::config::detail::::Range<aItemClass, aItemClass, true>, ''
            @ ''::config::detail::::Range<aItemClass, aItemClass, true>>(obj[\"a\"]);}''
            @ ''\<newline>\<newline>''
            @ ''std::optional<aItemClass> aItem() const ''
            @ '' {return ::config::detail::::make_optional<aItemClass, aItemClass>(obj[\"aItem\"]);}''
            @ ''\<newline>\<newline>'')
   \<and> emit_properties ''::config::detail::'' {}
       [Some (Ucl (Some ''a-b'') (UCL_OBJECT [Ucl (Some ''type'') (UCL_STRING ''object'')]))]
     = Inr (''class a_bClass{::config::detail::UCLPtr obj; public:\<newline>''
            @ ''a_bClass(const ucl_object_t *o) : obj(o) {}\<newline>'' @ ''};\<newline>'',
            ''std::optional<a_bClass> a_b() const ''
            @ '' {return ::config::detail::::make_optional<a_bClass, a_bClass>(obj[\"a-b\"]);}''
            @ ''\<newline>\<newline>'')"
  by code_simp

end
